theory Spec2Isabelle
  imports Main "HOL-Library.Sublist"
begin

section \<open>Data model of the background script\<close>

text \<open>
  The embedding follows \<^verbatim>\<open>src/background/index.ts\<close>. JavaScript strings are
  \<^typ>\<open>string\<close>, arrays are lists, objects with fixed fields are records, and a value
  that may be \<^verbatim>\<open>null\<close> or \<^verbatim>\<open>undefined\<close> is an \<^typ>\<open>'a option\<close>.
  Field names of the source that several object types share (\<^verbatim>\<open>name\<close>,
  \<^verbatim>\<open>value\<close>, \<^verbatim>\<open>id\<close>, \<^verbatim>\<open>type\<close>) carry the object's name as a prefix.
\<close>

text \<open>A stored cookie; the source reads only \<^verbatim>\<open>cookie.name\<close> and \<^verbatim>\<open>cookie.value\<close>.\<close>

record Cookie =
  cookie_name :: string
  cookie_value :: string

record Account =
  account_name :: string
  cookies :: "Cookie list"

record AutoSwitchRule =
  account :: string
  urlPattern :: string

text \<open>
  \<^verbatim>\<open>accountService.find\<close> lives in a module that is not part of the sources at hand.
  It is a parameter of the model: a lookup from an account name to the stored account,
  \<^term>\<open>None\<close> for \<^verbatim>\<open>undefined\<close>.
\<close>

type_synonym AccountStore = "string \<Rightarrow> Account option"

text \<open>The shape of \<^verbatim>\<open>DeclarativeNetRequest.Rule\<close> as the source fills it in.\<close>

record ModifyHeaderInfo =
  header :: string
  operation :: string
  header_value :: string

record RuleAction =
  action_type :: string
  requestHeaders :: "ModifyHeaderInfo list"

record RuleCondition =
  regexFilter :: string
  resourceTypes :: "string list"

record Rule =
  rule_id :: nat
  priority :: nat
  action :: RuleAction
  condition :: RuleCondition

definition RESOURCE_TYPES :: "string list" where
  "RESOURCE_TYPES =
     [''main_frame'', ''sub_frame'', ''csp_report'', ''websocket'', ''xmlhttprequest'']"

section \<open>The rule compiler\<close>

text \<open>\<^verbatim>\<open>Array.prototype.join\<close> on an array of strings.\<close>

fun join :: "string \<Rightarrow> string list \<Rightarrow> string" where
  "join sep [] = []"
| "join sep [x] = x"
| "join sep (x # y # ys) = x @ sep @ join sep (y # ys)"

text \<open>
  \<^verbatim>\<open>
  const account = await accountService.find(accountName)
  const cookies = account?.cookies || []
  if (!cookies.length) { return null }
  return cookies.map((cookie) => `${cookie.name}=${cookie.value}`)
    .concat(`__account__=${accountName}`).join('; ')
  \<close>
\<close>

definition buildCookieValue :: "AccountStore \<Rightarrow> string \<Rightarrow> string option" where
  "buildCookieValue accounts accountName =
     (let cs = (case accounts accountName of None \<Rightarrow> [] | Some a \<Rightarrow> cookies a)
      in if length cs = 0 then None
         else Some (join ''; ''
                (map (\<lambda>c. cookie_name c @ ''='' @ cookie_value c) cs
                 @ [''__account__='' @ accountName])))"

text \<open>
  JavaScript truthiness of a \<^verbatim>\<open>string | null\<close>: \<^verbatim>\<open>null\<close> and the empty
  string are falsy. It decides \<^verbatim>\<open>if (!cookieValue)\<close> and \<^verbatim>\<open>if (cookieValue)\<close>.
\<close>

fun truthy :: "string option \<Rightarrow> bool" where
  "truthy None = False"
| "truthy (Some s) = (s \<noteq> [])"

text \<open>The object literal pushed onto \<^verbatim>\<open>requestRules\<close> at position \<open>index\<close>.\<close>

definition compiledRule :: "nat \<Rightarrow> AutoSwitchRule \<Rightarrow> string \<Rightarrow> Rule" where
  "compiledRule index rule cookieValue =
     \<lparr> rule_id = index + 1,
       priority = 1,
       action = \<lparr> action_type = ''modifyHeaders'',
                  requestHeaders =
                    [\<lparr> header = ''Cookie'', operation = ''set'',
                       header_value = cookieValue \<rparr>] \<rparr>,
       condition = \<lparr> regexFilter = urlPattern rule @ ''|__account__='' @ account rule,
                     resourceTypes = RESOURCE_TYPES \<rparr> \<rparr>"

text \<open>
  The loop \<^verbatim>\<open>for (const [index, rule] of autoSwitchRules.entries())\<close>: the entries
  still to visit, the index of the next one, and the array \<^verbatim>\<open>requestRules\<close> built so
  far.
\<close>

fun buildAddRules_loop ::
  "AccountStore \<Rightarrow> nat \<Rightarrow> AutoSwitchRule list \<Rightarrow> Rule list \<Rightarrow> Rule list" where
  "buildAddRules_loop accounts index [] requestRules = requestRules"
| "buildAddRules_loop accounts index (rule # rest) requestRules =
     (let cookieValue = buildCookieValue accounts (account rule)
      in if \<not> truthy cookieValue
         then buildAddRules_loop accounts (index + 1) rest requestRules
         else buildAddRules_loop accounts (index + 1) rest
                (requestRules @ [compiledRule index rule (the cookieValue)]))"

definition buildAddRules :: "AccountStore \<Rightarrow> AutoSwitchRule list \<Rightarrow> Rule list" where
  "buildAddRules accounts autoSwitchRules = buildAddRules_loop accounts 0 autoSwitchRules []"

text \<open>An account "has cookies" when the store knows it with a non-empty cookie list.\<close>

definition hasCookies :: "AccountStore \<Rightarrow> string \<Rightarrow> bool" where
  "hasCookies accounts accountName =
     (case accounts accountName of None \<Rightarrow> False | Some a \<Rightarrow> cookies a \<noteq> [])"

section \<open>The fallback request interceptor\<close>

text \<open>Values the script can throw or reject with.\<close>

datatype error =
  SyntaxError string
| Rejected string

text \<open>
  \<^verbatim>\<open>new RegExp(pattern)\<close> and \<^verbatim>\<open>RegExp.prototype.test\<close> are built-ins of the
  platform. They are a parameter of the model: the constructor either throws a
  \<^verbatim>\<open>SyntaxError\<close> (\<^term>\<open>None\<close>) or yields the predicate that \<^verbatim>\<open>test\<close> computes.
\<close>

type_synonym RegExp = "string \<Rightarrow> (string \<Rightarrow> bool) option"

text \<open>
  An entry of \<^verbatim>\<open>details.requestHeaders\<close>: a name and an optional text or binary value.
\<close>

record HttpHeader =
  http_name :: string
  http_value :: "string option"
  binaryValue :: "nat list option"

record SendHeadersDetails =
  details_url :: string
  details_requestHeaders :: "HttpHeader list option"

text \<open>
  \<^verbatim>\<open>String.prototype.toLowerCase\<close> on header names. Header names are ASCII tokens, so
  the model maps the letters A to Z to a to z and leaves every other character alone.
\<close>

definition toLowerCase_char :: "char \<Rightarrow> char" where
  "toLowerCase_char c =
     (if 65 \<le> (of_char c :: nat) \<and> (of_char c :: nat) \<le> 90
      then char_of ((of_char c :: nat) + 32) else c)"

definition toLowerCase :: "string \<Rightarrow> string" where
  "toLowerCase s = map toLowerCase_char s"

text \<open>
  The inner loop \<^verbatim>\<open>for (const header of details.requestHeaders)\<close>, which assigns
  \<^verbatim>\<open>header.value = cookieValue\<close> to every header named cookie, in place.
\<close>

definition setCookieHeaders :: "string \<Rightarrow> HttpHeader list \<Rightarrow> HttpHeader list" where
  "setCookieHeaders cookieValue hs =
     map (\<lambda>h. if toLowerCase (http_name h) = ''cookie''
               then h\<lparr> http_value := Some cookieValue \<rparr> else h) hs"

text \<open>
  The loop \<^verbatim>\<open>for (const rule of autoSwitchRules)\<close> of the
  \<^verbatim>\<open>onBeforeSendHeaders\<close> listener. The listener returns from inside the loop at the
  first rule whose pattern tests true, whether or not a cookie value was built.
\<close>

fun interceptRequests_loop ::
  "RegExp \<Rightarrow> AccountStore \<Rightarrow> string \<Rightarrow> AutoSwitchRule list \<Rightarrow> HttpHeader list
   \<Rightarrow> error + HttpHeader list" where
  "interceptRequests_loop RE accounts url [] hs = Inr hs"
| "interceptRequests_loop RE accounts url (rule # rest) hs =
     (let pat = urlPattern rule @ ''|__account__='' @ account rule
      in case RE pat of
           None \<Rightarrow> Inl (SyntaxError pat)
         | Some re \<Rightarrow>
             if re url
             then (let cookieValue = buildCookieValue accounts (account rule)
                   in if truthy cookieValue
                      then Inr (setCookieHeaders (the cookieValue) hs)
                      else Inr hs)
             else interceptRequests_loop RE accounts url rest hs)"

definition interceptRequests ::
  "RegExp \<Rightarrow> AccountStore \<Rightarrow> AutoSwitchRule list \<Rightarrow> SendHeadersDetails
   \<Rightarrow> error + HttpHeader list option" where
  "interceptRequests RE accounts autoSwitchRules details =
     (case details_requestHeaders details of
        None \<Rightarrow> Inr None
      | Some hs \<Rightarrow>
          (case interceptRequests_loop RE accounts (details_url details) autoSwitchRules hs of
             Inl e \<Rightarrow> Inl e
           | Inr hs' \<Rightarrow> Inr (Some hs')))"

text \<open>
  A regular-expression engine for running the model on concrete inputs. It realises the
  built-in on patterns whose only metacharacter is the bar: such a pattern never fails to
  compile, and it tests true exactly when one of its alternatives occurs in the input.
\<close>

fun alternatives :: "string \<Rightarrow> string \<Rightarrow> string list" where
  "alternatives cur [] = [cur]"
| "alternatives cur (c # cs) =
     (if c = CHR ''|'' then cur # alternatives [] cs else alternatives (cur @ [c]) cs)"

fun occursIn :: "string \<Rightarrow> string \<Rightarrow> bool" where
  "occursIn p [] = (p = [])"
| "occursIn p (c # cs) = (take (length p) (c # cs) = p \<or> occursIn p cs)"

definition literalRegExp :: RegExp where
  "literalRegExp pat = Some (\<lambda>s. list_ex (\<lambda>a. occursIn a s) (alternatives [] pat))"

text \<open>
  A second engine, which also knows one way in which a pattern is ill-formed: an
  alternative that starts with a quantifier (\<open>+\<close>, \<open>*\<close> or \<open>?\<close>) has nothing to repeat,
  and \<^verbatim>\<open>new RegExp\<close> throws a \<^verbatim>\<open>SyntaxError\<close> for it. It realises the built-in on
  patterns whose only metacharacters are the bar and such a leading quantifier.
\<close>

fun nothingToRepeat :: "string \<Rightarrow> bool" where
  "nothingToRepeat [] = False"
| "nothingToRepeat (c # cs) = (c = CHR ''+'' \<or> c = CHR ''*'' \<or> c = CHR ''?'')"

definition checkedRegExp :: RegExp where
  "checkedRegExp pat =
     (if list_ex nothingToRepeat (alternatives [] pat) then None else literalRegExp pat)"

section \<open>The rule synchronizer\<close>

text \<open>
  The calls the script makes on the platform while it reconciles, in the order it makes
  them: \<^verbatim>\<open>declarativeNetRequest.getDynamicRules()\<close>,
  \<^verbatim>\<open>declarativeNetRequest.updateDynamicRules({removeRuleIds, addRules})\<close> and the final
  \<^verbatim>\<open>console.info('Current dynamic rules:', rules)\<close>.
\<close>

datatype PlatformCall =
  GetDynamicRules
| isUpdate: UpdateDynamicRules (removeRuleIds: "nat list") (addRules: "Rule list")
| ConsoleInfo "Rule list"

text \<open>
  The part of \<^verbatim>\<open>browser\<close> that reconciliation touches. \<open>declarativeNetRequest\<close> is
  \<^term>\<open>None\<close> when the platform has no such API object and otherwise holds the dynamic
  rules installed at the moment; \<open>calls\<close> records the calls made so far.
\<close>

record Browser =
  declarativeNetRequest :: "Rule list option"
  calls :: "PlatformCall list"

text \<open>
  What \<^verbatim>\<open>updateDynamicRules\<close> does to the installed rules belongs to the platform: given
  the installed rules, the ids to remove and the rules to add, the engine either rejects
  the update or yields the rules installed afterwards.
\<close>

type_synonym Engine = "Rule list \<Rightarrow> nat list \<Rightarrow> Rule list \<Rightarrow> error + Rule list"

definition updateDynamicRequestRules ::
  "Engine \<Rightarrow> AccountStore \<Rightarrow> AutoSwitchRule list \<Rightarrow> Browser \<Rightarrow> (error + unit) \<times> Browser" where
  "updateDynamicRequestRules engine accounts autoSwitchRules b =
     (case declarativeNetRequest b of
        None \<Rightarrow> (Inr (), b)
      | Some existingRules \<Rightarrow>
          (let b1 = b\<lparr> calls := calls b @ [GetDynamicRules] \<rparr>;
               removeIds = map rule_id existingRules;
               toAdd = buildAddRules accounts autoSwitchRules;
               b2 = b1\<lparr> calls := calls b1 @ [UpdateDynamicRules removeIds toAdd] \<rparr>
           in case engine existingRules removeIds toAdd of
                Inl e \<Rightarrow> (Inl e, b2)
              | Inr installed \<Rightarrow>
                  (Inr (),
                   b2\<lparr> declarativeNetRequest := Some installed,
                       calls := calls b2 @ [GetDynamicRules, ConsoleInfo installed] \<rparr>)))"

text \<open>The calls made between a browser state and a later one.\<close>

definition issued :: "Browser \<Rightarrow> Browser \<Rightarrow> PlatformCall list" where
  "issued b b' = drop (length (calls b)) (calls b')"

text \<open>
  An engine for running the model on concrete inputs: it drops the installed rules whose
  id is to be removed and appends the added ones, and never rejects.
\<close>

definition replaceEngine :: Engine where
  "replaceEngine installed removeIds toAdd =
     Inr (filter (\<lambda>r. rule_id r \<notin> set removeIds) installed @ toAdd)"

section \<open>The cookie watcher\<close>

text \<open>
  The argument of the \<^verbatim>\<open>cookies.onChanged\<close> listener: the cookie that changed and
  whether the change removed it.
\<close>

record ChangeInfo =
  cookie :: Cookie
  removed :: bool

text \<open>
  The state \<^verbatim>\<open>watchCookies\<close> works on. Time is a logical clock in milliseconds.
  \<open>jar\<close> is the content of the browser's cookie store, of any type. \<open>timeouts\<close> is the
  platform's table of pending \<^verbatim>\<open>setTimeout\<close> callbacks, each a handle with its due time;
  the watcher is the only caller, so every entry runs the callback of \<^verbatim>\<open>scheduleSync\<close>.
  \<open>lastHandle\<close> is the last handle the platform handed out. \<open>syncTimer\<close> is the closure
  variable \<^verbatim>\<open>let syncTimer: number | undefined\<close>. \<open>badge\<close> lists the texts that the
  \<^verbatim>\<open>onChanged\<close> listener itself passes to \<^verbatim>\<open>setBadgeText\<close>. \<open>syncs\<close> lists the
  invocations of \<^verbatim>\<open>syncAccounts\<close>: the time of each and the cookie store it starts to
  read. An invocation stands for all that \<^verbatim>\<open>syncAccounts\<close> goes on to do with that
  store (the upsert, the reconciliation of the rules, the avatar fetch and its own
  \<^verbatim>\<open>setBadgeText(account.slice(0, 2))\<close>); none of that is tracked in this state, so
  \<open>badge\<close> does not hold the badge text of a completed sync.
\<close>

record 'j Watcher =
  now :: nat
  jar :: 'j
  timeouts :: "(nat \<times> nat) list"
  lastHandle :: nat
  syncTimer :: "nat option"
  badge :: "string list"
  syncs :: "(nat \<times> 'j) list"

definition AUTH_COOKIES :: "string list" where
  "AUTH_COOKIES = [''dotcom_user'', ''user_session'', ''_gh_sso'', ''logged_in'']"

text \<open>
  The platform's timers: \<^verbatim>\<open>clearTimeout\<close> drops the entry with the given handle,
  \<^verbatim>\<open>setTimeout\<close> adds an entry due after the delay and returns a fresh handle, which is
  a positive integer.
\<close>

definition clearTimeout :: "nat \<Rightarrow> 'j Watcher \<Rightarrow> 'j Watcher" where
  "clearTimeout h w = w\<lparr> timeouts := filter (\<lambda>(h', d). h' \<noteq> h) (timeouts w) \<rparr>"

definition setTimeout :: "nat \<Rightarrow> 'j Watcher \<Rightarrow> nat \<times> 'j Watcher" where
  "setTimeout delay w =
     (let h = Suc (lastHandle w)
      in (h, w\<lparr> timeouts := timeouts w @ [(h, now w + delay)], lastHandle := h \<rparr>))"

text \<open>
  \<^verbatim>\<open>
  function scheduleSync() {
    if (syncTimer) { clearTimeout(syncTimer) }
    syncTimer = setTimeout(() => { syncAccounts().catch(...); syncTimer = undefined }, 300)
  }
  \<close>
  \<^verbatim>\<open>if (syncTimer)\<close> is false for \<^verbatim>\<open>undefined\<close> and for the number 0.
\<close>

definition scheduleSync :: "'j Watcher \<Rightarrow> 'j Watcher" where
  "scheduleSync w =
     (let w1 = (case syncTimer w of
                  None \<Rightarrow> w
                | Some h \<Rightarrow> if h \<noteq> 0 then clearTimeout h w else w);
          (h, w2) = setTimeout 300 w1
      in w2\<lparr> syncTimer := Some h \<rparr>)"

text \<open>
  The callback handed to \<^verbatim>\<open>setTimeout\<close>: it invokes \<^verbatim>\<open>syncAccounts\<close>, which
  reads the cookie store as it is then, and resets \<open>syncTimer\<close>. The invocation is
  recorded in \<open>syncs\<close>; its later effects, the badge update at its end among them, are
  outside the watcher's state.
\<close>

definition timerCallback :: "'j Watcher \<Rightarrow> 'j Watcher" where
  "timerCallback w = w\<lparr> syncs := syncs w @ [(now w, jar w)], syncTimer := None \<rparr>"

text \<open>The listener registered with \<^verbatim>\<open>browser.cookies.onChanged\<close>.\<close>

definition onChanged :: "ChangeInfo \<Rightarrow> 'j Watcher \<Rightarrow> 'j Watcher" where
  "onChanged changeInfo w =
     (if cookie_name (cookie changeInfo) \<notin> set AUTH_COOKIES then w
      else if removed changeInfo
      then (if cookie_name (cookie changeInfo) = ''dotcom_user''
            then w\<lparr> badge := badge w @ [''...''] \<rparr> else w)
      else scheduleSync w)"

text \<open>
  The event loop. \<open>fire\<close> runs the callbacks of the given timers, each at its due time
  and after leaving the table; \<open>advance t\<close> lets the clock reach \<open>t\<close>, firing the timers
  that are due by then in the order of their due times.
\<close>

fun fire :: "(nat \<times> nat) list \<Rightarrow> 'j Watcher \<Rightarrow> 'j Watcher" where
  "fire [] w = w"
| "fire ((h, d) # ds) w =
     fire ds (timerCallback
       (w\<lparr> now := max (now w) d,
           timeouts := filter (\<lambda>(h', d'). h' \<noteq> h) (timeouts w) \<rparr>))"

definition advance :: "nat \<Rightarrow> 'j Watcher \<Rightarrow> 'j Watcher" where
  "advance t w =
     (let w' = fire (sort_key snd (filter (\<lambda>(h, d). d \<le> t) (timeouts w))) w
      in w'\<lparr> now := max (now w') t \<rparr>)"

text \<open>
  What reaches the watcher from outside: time passes, or the cookie store changes to a new
  content and the listener is notified of the change.
\<close>

datatype 'j Input = Elapse nat | CookieChanged 'j ChangeInfo

fun step :: "'j Input \<Rightarrow> 'j Watcher \<Rightarrow> 'j Watcher" where
  "step (Elapse d) w = advance (now w + d) w"
| "step (CookieChanged j changeInfo) w = onChanged changeInfo (w\<lparr> jar := j \<rparr>)"

definition run :: "'j Input list \<Rightarrow> 'j Watcher \<Rightarrow> 'j Watcher" where
  "run inputs w = foldl (\<lambda>w i. step i w) w inputs"

text \<open>The state right after \<^verbatim>\<open>watchCookies()\<close> has registered the listener.\<close>

definition watchCookies :: "'j \<Rightarrow> 'j Watcher" where
  "watchCookies j =
     \<lparr> now = 0, jar = j, timeouts = [], lastHandle = 0, syncTimer = None,
       badge = [], syncs = [] \<rparr>"

text \<open>
  A change arms the timer when it adds or updates an allow-listed cookie: these are the
  changes for which the listener reaches \<^verbatim>\<open>scheduleSync()\<close>.
\<close>

definition arms :: "ChangeInfo \<Rightarrow> bool" where
  "arms changeInfo \<longleftrightarrow>
     cookie_name (cookie changeInfo) \<in> set AUTH_COOKIES \<and> \<not> removed changeInfo"

fun armsInput :: "'j Input \<Rightarrow> bool" where
  "armsInput (Elapse d) = False"
| "armsInput (CookieChanged j changeInfo) = arms changeInfo"

text \<open>The time that passes during a list of inputs.\<close>

fun elapsed :: "'j Input list \<Rightarrow> nat" where
  "elapsed [] = 0"
| "elapsed (Elapse d # is) = d + elapsed is"
| "elapsed (CookieChanged j changeInfo # is) = elapsed is"

text \<open>
  The invariant of the watcher: the timer table is empty when \<open>syncTimer\<close> is unset, and
  otherwise holds exactly the timer that \<open>syncTimer\<close> names, due in the future and at most
  300 ms from now.
\<close>

definition watcherInv :: "'j Watcher \<Rightarrow> bool" where
  "watcherInv w =
     (case syncTimer w of
        None \<Rightarrow> timeouts w = []
      | Some h \<Rightarrow> 0 < h \<and> map fst (timeouts w) = [h]
                  \<and> list_all (\<lambda>(h', d). now w < d \<and> d \<le> now w + 300) (timeouts w))"

section \<open>The message listener\<close>

text \<open>
  A command message: its \<^verbatim>\<open>type\<close> tag and, for the kinds that carry one, its
  \<^verbatim>\<open>account\<close>.
\<close>

record RequestMessage =
  message_type :: string
  message_account :: string

text \<open>
  The collaborators the handlers call live in modules outside the sources at hand, so
  they are parameters: each call runs on a service state \<open>'s\<close>, may change it, and either
  fulfils with a value or rejects with an error. \<open>getAll\<close> is \<^verbatim>\<open>ruleService.getAll\<close>
  and \<open>find_account\<close> is \<^verbatim>\<open>accountService.find\<close>: reads of the state, which leave it
  as it is and may reject as well.
\<close>

record ('s, 'd) Services =
  getAllNames :: "'s \<Rightarrow> (error + 'd) \<times> 's"
  switchTo :: "string \<Rightarrow> 's \<Rightarrow> (error + 'd) \<times> 's"
  remove :: "string \<Rightarrow> 's \<Rightarrow> (error + unit) \<times> 's"
  clear :: "'s \<Rightarrow> (error + 'd) \<times> 's"
  getAll :: "'s \<Rightarrow> error + AutoSwitchRule list"
  find_account :: "'s \<Rightarrow> string \<Rightarrow> error + Account option"
  platformEngine :: Engine

text \<open>What \<^verbatim>\<open>await handleMessage(request)\<close> can yield as \<^verbatim>\<open>data\<close>.\<close>

datatype 'd Data = Undefined | Value 'd | RuleList "AutoSwitchRule list"

text \<open>
  The two shapes of a response: \<^verbatim>\<open>{ success: true, data }\<close> and
  \<^verbatim>\<open>{ success: false, error }\<close>.
\<close>

datatype 'd Response = Success "'d Data" | Failure error

text \<open>
  \<^verbatim>\<open>updateDynamicRequestRules\<close> with the reads of its \<^verbatim>\<open>buildAddRules\<close> written
  out. \<open>awaitFinds\<close> is the sequence of \<^verbatim>\<open>await accountService.find(rule.account)\<close>
  that the loop over the rules makes, in order; the first rejection ends it.
  \<open>foundAccounts\<close> is the store those reads return. With the API absent nothing is read.
  Otherwise \<^verbatim>\<open>getDynamicRules()\<close> is called, then \<^verbatim>\<open>ruleService.getAll()\<close> and the
  finds run; a rejection of one of them is the rejection of the whole, before any update;
  when all fulfil, the run is \<open>updateDynamicRequestRules\<close> on the values read.
\<close>

fun awaitFinds :: "(string \<Rightarrow> error + Account option) \<Rightarrow> AutoSwitchRule list \<Rightarrow> error + unit" where
  "awaitFinds f [] = Inr ()"
| "awaitFinds f (rule # rest) =
     (case f (account rule) of Inl e \<Rightarrow> Inl e | Inr a \<Rightarrow> awaitFinds f rest)"

definition foundAccounts :: "(string \<Rightarrow> error + Account option) \<Rightarrow> AccountStore" where
  "foundAccounts f n = (case f n of Inl e \<Rightarrow> None | Inr a \<Rightarrow> a)"

definition updateDynamicRequestRules_reading ::
  "('s, 'd) Services \<Rightarrow> 's \<Rightarrow> Browser \<Rightarrow> (error + unit) \<times> Browser" where
  "updateDynamicRequestRules_reading sv s b =
     (case declarativeNetRequest b of
        None \<Rightarrow> (Inr (), b)
      | Some existingRules \<Rightarrow>
          (case getAll sv s of
             Inl e \<Rightarrow> (Inl e, b\<lparr> calls := calls b @ [GetDynamicRules] \<rparr>)
           | Inr autoSwitchRules \<Rightarrow>
               (case awaitFinds (find_account sv s) autoSwitchRules of
                  Inl e \<Rightarrow> (Inl e, b\<lparr> calls := calls b @ [GetDynamicRules] \<rparr>)
                | Inr u \<Rightarrow>
                    updateDynamicRequestRules (platformEngine sv)
                      (foundAccounts (find_account sv s)) autoSwitchRules b)))"

text \<open>
  \<^verbatim>\<open>
  async function removeAccount(accountName) {
    await accountService.remove(accountName)
    await updateDynamicRequestRules()
  }
  \<close>
\<close>

definition removeAccount ::
  "('s, 'd) Services \<Rightarrow> string \<Rightarrow> 's \<times> Browser \<Rightarrow> (error + unit) \<times> ('s \<times> Browser)" where
  "removeAccount sv accountName w =
     (case w of (s, b) \<Rightarrow>
        (case remove sv accountName s of
           (Inl e, s') \<Rightarrow> (Inl e, (s', b))
         | (Inr u, s') \<Rightarrow>
             (case updateDynamicRequestRules_reading sv s' b of
                (r, b') \<Rightarrow> (r, (s', b')))))"

text \<open>A promise settles: a rejection stays one, a fulfilment becomes the data.\<close>

definition settled :: "('a \<Rightarrow> 'd Data) \<Rightarrow> (error + 'a) \<Rightarrow> error + 'd Data" where
  "settled f r = (case r of Inl e \<Rightarrow> Inl e | Inr x \<Rightarrow> Inr (f x))"

text \<open>
  \<^verbatim>\<open>handleMessage\<close>, awaited: the \<^verbatim>\<open>switch\<close> over the five kinds, and
  \<^verbatim>\<open>undefined\<close> when no case applies.
\<close>

definition handleMessage ::
  "('s, 'd) Services \<Rightarrow> RequestMessage \<Rightarrow> 's \<times> Browser
   \<Rightarrow> (error + 'd Data) \<times> ('s \<times> Browser)" where
  "handleMessage sv message w =
     (case w of (s, b) \<Rightarrow>
        if message_type message = ''getAccounts''
        then (case getAllNames sv s of (r, s') \<Rightarrow> (settled Value r, (s', b)))
        else if message_type message = ''switchAccount''
        then (case switchTo sv (message_account message) s of
                (r, s') \<Rightarrow> (settled Value r, (s', b)))
        else if message_type message = ''removeAccount''
        then (case removeAccount sv (message_account message) (s, b) of
                (r, w') \<Rightarrow> (settled (\<lambda>u. Undefined) r, w'))
        else if message_type message = ''clearCookies''
        then (case clear sv s of (r, s') \<Rightarrow> (settled Value r, (s', b)))
        else if message_type message = ''getAutoSwitchRules''
        then (settled RuleList (getAll sv s), (s, b))
        else (Inr Undefined, (s, b)))"

text \<open>
  The listener of \<^verbatim>\<open>listenMessage\<close>, with its \<^verbatim>\<open>try\<close>/\<^verbatim>\<open>catch\<close>. Its result
  type leaves room for a rejection (\<open>Inl\<close>) of the listener itself.
\<close>

definition listener ::
  "('s, 'd) Services \<Rightarrow> RequestMessage \<Rightarrow> 's \<times> Browser
   \<Rightarrow> (error + 'd Response) \<times> ('s \<times> Browser)" where
  "listener sv request w =
     (case handleMessage sv request w of
        (Inr d, w') \<Rightarrow> (Inr (Success d), w')
      | (Inl e, w') \<Rightarrow> (Inr (Failure e), w'))"

definition knownKinds :: "string list" where
  "knownKinds = [''getAccounts'', ''switchAccount'', ''removeAccount'', ''clearCookies'',
                 ''getAutoSwitchRules'']"

section \<open>Concrete inputs\<close>

text \<open>
  Two stores used to run the definitions on concrete inputs: in \<open>aliceOnly\<close> the account
  alice holds the cookies a=1 and b=2 and bob is known with an empty jar; in \<open>bobOnly\<close>
  the account bob holds the cookie s=x and alice is unknown.
\<close>

definition aliceOnly :: AccountStore where
  "aliceOnly n =
     (if n = ''alice''
      then Some \<lparr> account_name = ''alice'',
                  cookies = [\<lparr> cookie_name = ''a'', cookie_value = ''1'' \<rparr>,
                             \<lparr> cookie_name = ''b'', cookie_value = ''2'' \<rparr>] \<rparr>
      else if n = ''bob'' then Some \<lparr> account_name = ''bob'', cookies = [] \<rparr>
      else None)"

definition bobOnly :: AccountStore where
  "bobOnly n =
     (if n = ''bob''
      then Some \<lparr> account_name = ''bob'',
                  cookies = [\<lparr> cookie_name = ''s'', cookie_value = ''x'' \<rparr>] \<rparr>
      else None)"

text \<open>A store in which alice holds the cookie s=x and bob the cookie t=y.\<close>

definition aliceSession :: AccountStore where
  "aliceSession n =
     (if n = ''alice''
      then Some \<lparr> account_name = ''alice'',
                  cookies = [\<lparr> cookie_name = ''s'', cookie_value = ''x'' \<rparr>] \<rparr>
      else if n = ''bob''
      then Some \<lparr> account_name = ''bob'',
                  cookies = [\<lparr> cookie_name = ''t'', cookie_value = ''y'' \<rparr>] \<rparr>
      else None)"

text \<open>
  A rule list and a browser state for running the synchronizer: the rules alice//acme/
  and bob//acme/, and a platform on which one stale rule with id 7 is installed.
\<close>

definition demoRules :: "AutoSwitchRule list" where
  "demoRules = [\<lparr> account = ''alice'', urlPattern = ''/acme/'' \<rparr>,
                \<lparr> account = ''bob'', urlPattern = ''/acme/'' \<rparr>]"

definition staleBrowser :: Browser where
  "staleBrowser =
     \<lparr> declarativeNetRequest =
         Some [compiledRule 6 \<lparr> account = ''bob'', urlPattern = ''/old/'' \<rparr> ''stale''],
       calls = [] \<rparr>"

text \<open>
  Change notifications, a burst of five arming changes 50 ms apart, and a set of services
  over a list of account names, for running the watcher and the listener.
\<close>

definition setCookie :: "string \<Rightarrow> string \<Rightarrow> ChangeInfo" where
  "setCookie n v = \<lparr> cookie = \<lparr> cookie_name = n, cookie_value = v \<rparr>, removed = False \<rparr>"

definition removeCookie :: "string \<Rightarrow> string \<Rightarrow> ChangeInfo" where
  "removeCookie n v = \<lparr> cookie = \<lparr> cookie_name = n, cookie_value = v \<rparr>, removed = True \<rparr>"

definition burst5 :: "string Input list" where
  "burst5 =
     [CookieChanged ''jar1'' (setCookie ''dotcom_user'' ''octocat''), Elapse 50,
      CookieChanged ''jar2'' (setCookie ''user_session'' ''abc''), Elapse 50,
      CookieChanged ''jar3'' (setCookie ''_gh_sso'' ''def''), Elapse 50,
      CookieChanged ''jar4'' (setCookie ''logged_in'' ''yes''), Elapse 50,
      CookieChanged ''jar5'' (setCookie ''user_session'' ''ghi'')]"

definition demoServices :: "(string list, string list) Services" where
  "demoServices =
     \<lparr> getAllNames = (\<lambda>s. (Inr s, s)),
       switchTo = (\<lambda>a s. if a \<in> set s then (Inr [a], s)
                          else (Inl (Rejected ''unknown account''), s)),
       remove = (\<lambda>a s. if a \<in> set s then (Inr (), removeAll a s)
                        else (Inl (Rejected ''unknown account''), s)),
       clear = (\<lambda>s. (Inr [], s)),
       getAll = (\<lambda>s. Inr demoRules),
       find_account = (\<lambda>s n. Inr (if n \<in> set s then bobOnly n else None)),
       platformEngine = replaceEngine \<rparr>"

text \<open>The same services over a rule store that cannot be read.\<close>

definition brokenRuleStore :: "(string list, string list) Services" where
  "brokenRuleStore = demoServices\<lparr> getAll := (\<lambda>s. Inl (Rejected ''storage unavailable'')) \<rparr>"

section \<open>Properties of the rule compiler\<close>

lemma join_snoc:
  "xs \<noteq> [] \<Longrightarrow> join sep (xs @ [y]) = join sep xs @ sep @ y"
  by (induction sep xs rule: join.induct) auto

lemma buildCookieValue_None_iff:
  "buildCookieValue accounts a = None \<longleftrightarrow> \<not> hasCookies accounts a"
  by (auto simp: buildCookieValue_def hasCookies_def Let_def split: option.splits)

lemma join_last_nonempty: "y \<noteq> [] \<Longrightarrow> join sep (xs @ [y]) \<noteq> []"
proof (cases "xs = []")
  case True
  assume "y \<noteq> []"
  with True show ?thesis by simp
next
  case False
  assume "y \<noteq> []"
  then show ?thesis using join_snoc [OF False, of sep y] by simp
qed

lemma truthy_buildCookieValue:
  "truthy (buildCookieValue accounts a) \<longleftrightarrow> hasCookies accounts a"
proof (cases "buildCookieValue accounts a")
  case None
  then show ?thesis using buildCookieValue_None_iff [of accounts a] by simp
next
  case (Some v)
  moreover have "''__account__='' @ a \<noteq> []"
    by simp
  ultimately have "v \<noteq> []"
    using join_last_nonempty [of "''__account__='' @ a" "''; ''"]
    by (auto simp only: buildCookieValue_def Let_def split: if_splits)
  with Some show ?thesis using buildCookieValue_None_iff [of accounts a] by simp
qed

lemma buildAddRules_loop_eq:
  "buildAddRules_loop accounts k rs acc =
     acc @ map (\<lambda>i. compiledRule (k + i) (rs ! i) (the (buildCookieValue accounts (account (rs ! i)))))
             (filter (\<lambda>i. hasCookies accounts (account (rs ! i))) [0..<length rs])"
proof (induction rs arbitrary: k acc)
  case Nil
  then show ?case by simp
next
  case (Cons r rs)
  have shift: "[0..<length (r # rs)] = 0 # map Suc [0..<length rs]"
    by (simp add: upt_conv_Cons map_Suc_upt del: upt_Suc)
  show ?case
    by (simp only: shift)
       (simp add: Cons.IH truthy_buildCookieValue Let_def filter_map o_def)
qed


lemma buildAddRules_eq:
  "buildAddRules accounts rs =
     map (\<lambda>i. compiledRule i (rs ! i) (the (buildCookieValue accounts (account (rs ! i)))))
         (filter (\<lambda>i. hasCookies accounts (account (rs ! i))) [0..<length rs])"
  by (simp add: buildAddRules_def buildAddRules_loop_eq)

text \<open>
  Claim C2. For every account name, \<open>buildCookieValue\<close> returns \<open>None\<close> when the
  account is unknown or has zero stored cookies; otherwise it returns the cookies, each
  written name=value, joined with "; ", followed by "; " and the marker
  \<open>__account__=<accountName>\<close> (which is the join of the pairs and the marker). For
  the account alice with the cookies a=1 and b=2 the result is exactly
  "a=1; b=2; __account__=alice".
\<close>

theorem buildCookieValue_spec:
  "(accounts a = None \<longrightarrow> buildCookieValue accounts a = None) \<and>
   (\<forall>acc. accounts a = Some acc \<and> cookies acc = [] \<longrightarrow> buildCookieValue accounts a = None) \<and>
   (\<forall>acc. accounts a = Some acc \<and> cookies acc \<noteq> [] \<longrightarrow>
      buildCookieValue accounts a =
        Some (join ''; '' (map (\<lambda>c. cookie_name c @ ''='' @ cookie_value c) (cookies acc))
              @ ''; '' @ ''__account__='' @ a) \<and>
      buildCookieValue accounts a =
        Some (join ''; '' (map (\<lambda>c. cookie_name c @ ''='' @ cookie_value c) (cookies acc)
                           @ [''__account__='' @ a]))) \<and>
   (\<forall>acc. accounts ''alice'' = Some acc \<and>
          cookies acc = [\<lparr> cookie_name = ''a'', cookie_value = ''1'' \<rparr>,
                         \<lparr> cookie_name = ''b'', cookie_value = ''2'' \<rparr>] \<longrightarrow>
      buildCookieValue accounts ''alice'' = Some ''a=1; b=2; __account__=alice'')"
proof (intro conjI allI impI)
  assume "accounts a = None"
  then show "buildCookieValue accounts a = None"
    by (simp add: buildCookieValue_def)
next
  fix acc
  assume "accounts a = Some acc \<and> cookies acc = []"
  then show "buildCookieValue accounts a = None"
    by (simp add: buildCookieValue_def)
next
  fix acc
  assume h: "accounts a = Some acc \<and> cookies acc \<noteq> []"
  then show "buildCookieValue accounts a =
      Some (join ''; '' (map (\<lambda>c. cookie_name c @ ''='' @ cookie_value c) (cookies acc)
                         @ [''__account__='' @ a]))"
    by (simp add: buildCookieValue_def)
  from h have "map (\<lambda>c. cookie_name c @ ''='' @ cookie_value c) (cookies acc) \<noteq> []"
    by simp
  from join_snoc [OF this, of "''; ''" "''__account__='' @ a"] h
  show "buildCookieValue accounts a =
      Some (join ''; '' (map (\<lambda>c. cookie_name c @ ''='' @ cookie_value c) (cookies acc))
            @ ''; '' @ ''__account__='' @ a)"
    by (simp add: buildCookieValue_def)
next
  fix acc
  assume "accounts ''alice'' = Some acc \<and>
          cookies acc = [\<lparr> cookie_name = ''a'', cookie_value = ''1'' \<rparr>,
                         \<lparr> cookie_name = ''b'', cookie_value = ''2'' \<rparr>]"
  then show "buildCookieValue accounts ''alice'' = Some ''a=1; b=2; __account__=alice''"
    by (simp add: buildCookieValue_def)
qed

theorem buildCookieValue_spec_witness:
  "buildCookieValue aliceOnly ''alice'' = Some ''a=1; b=2; __account__=alice'' \<and>
   buildCookieValue aliceOnly ''bob'' = None \<and>
   buildCookieValue aliceOnly ''carol'' = None"
proof -
  have alice: "aliceOnly ''alice'' =
      Some \<lparr> account_name = ''alice'',
             cookies = [\<lparr> cookie_name = ''a'', cookie_value = ''1'' \<rparr>,
                        \<lparr> cookie_name = ''b'', cookie_value = ''2'' \<rparr>] \<rparr>"
    by (simp add: aliceOnly_def)
  have bob: "aliceOnly ''bob'' = Some \<lparr> account_name = ''bob'', cookies = [] \<rparr>"
    by (simp add: aliceOnly_def)
  have carol: "aliceOnly ''carol'' = None"
    by (simp add: aliceOnly_def)
  show ?thesis
    using buildCookieValue_spec [of aliceOnly "''alice''"]
      buildCookieValue_spec [of aliceOnly "''bob''"]
      buildCookieValue_spec [of aliceOnly "''carol''"]
    by (simp add: alice bob carol)
qed

text \<open>
  Claim C1. For every ordered rule list, \<open>buildAddRules\<close> emits, in list order, exactly
  one compiled rule for each rule whose account has a non-empty cookie set, and nothing
  else. The rule compiled from position \<open>i\<close> of the original list (skipped entries
  counted) has id \<open>i + 1\<close>, priority 1, the action "set the Cookie header to the account's
  cookie value", the regexFilter \<open><urlPattern>|__account__=<accountName>\<close> and the five
  resource types main_frame, sub_frame, csp_report, websocket, xmlhttprequest. For the
  rules alice/P1, bob/P2 where only bob has cookies the output is one rule, with id 2.
\<close>

theorem buildAddRules_spec:
  "buildAddRules accounts rs =
     map (\<lambda>i. \<lparr> rule_id = i + 1,
                 priority = 1,
                 action = \<lparr> action_type = ''modifyHeaders'',
                            requestHeaders =
                              [\<lparr> header = ''Cookie'', operation = ''set'',
                                 header_value =
                                   the (buildCookieValue accounts (account (rs ! i))) \<rparr>] \<rparr>,
                 condition =
                   \<lparr> regexFilter = urlPattern (rs ! i) @ ''|__account__='' @ account (rs ! i),
                     resourceTypes = [''main_frame'', ''sub_frame'', ''csp_report'',
                                      ''websocket'', ''xmlhttprequest''] \<rparr> \<rparr>)
         (filter (\<lambda>i. hasCookies accounts (account (rs ! i))) [0..<length rs])
   \<and> (\<not> hasCookies accounts ''alice'' \<and> hasCookies accounts ''bob'' \<longrightarrow>
        (\<exists>r. buildAddRules accounts
                [\<lparr> account = ''alice'', urlPattern = p1 \<rparr>,
                 \<lparr> account = ''bob'', urlPattern = p2 \<rparr>] = [r]
             \<and> rule_id r = 2))"
proof
  show "buildAddRules accounts rs =
     map (\<lambda>i. \<lparr> rule_id = i + 1,
                 priority = 1,
                 action = \<lparr> action_type = ''modifyHeaders'',
                            requestHeaders =
                              [\<lparr> header = ''Cookie'', operation = ''set'',
                                 header_value =
                                   the (buildCookieValue accounts (account (rs ! i))) \<rparr>] \<rparr>,
                 condition =
                   \<lparr> regexFilter = urlPattern (rs ! i) @ ''|__account__='' @ account (rs ! i),
                     resourceTypes = [''main_frame'', ''sub_frame'', ''csp_report'',
                                      ''websocket'', ''xmlhttprequest''] \<rparr> \<rparr>)
         (filter (\<lambda>i. hasCookies accounts (account (rs ! i))) [0..<length rs])"
    unfolding buildAddRules_eq compiledRule_def RESOURCE_TYPES_def ..
next
  show "\<not> hasCookies accounts ''alice'' \<and> hasCookies accounts ''bob'' \<longrightarrow>
        (\<exists>r. buildAddRules accounts
                [\<lparr> account = ''alice'', urlPattern = p1 \<rparr>,
                 \<lparr> account = ''bob'', urlPattern = p2 \<rparr>] = [r]
             \<and> rule_id r = 2)"
  proof
    assume h: "\<not> hasCookies accounts ''alice'' \<and> hasCookies accounts ''bob''"
    have "[0..<length [\<lparr> account = ''alice'', urlPattern = p1 \<rparr>,
                        \<lparr> account = ''bob'', urlPattern = p2 \<rparr>]] = [0, Suc 0]"
      by (simp add: upt_conv_Cons)
    with h show "\<exists>r. buildAddRules accounts
                [\<lparr> account = ''alice'', urlPattern = p1 \<rparr>,
                 \<lparr> account = ''bob'', urlPattern = p2 \<rparr>] = [r]
             \<and> rule_id r = 2"
      by (simp add: buildAddRules_eq compiledRule_def)
  qed
qed

theorem buildAddRules_spec_witness:
  "\<exists>r. buildAddRules bobOnly
          [\<lparr> account = ''alice'', urlPattern = ''P1'' \<rparr>,
           \<lparr> account = ''bob'', urlPattern = ''P2'' \<rparr>] = [r]
       \<and> rule_id r = 2"
proof -
  have "\<not> hasCookies bobOnly ''alice'' \<and> hasCookies bobOnly ''bob''"
    by (simp add: hasCookies_def bobOnly_def)
  with buildAddRules_spec [of bobOnly "[]" "''P1''" "''P2''"] show ?thesis
    by blast
qed


section \<open>Properties of the fallback interceptor\<close>

lemma buildCookieValue_Some_nonempty:
  "buildCookieValue accounts a = Some v \<Longrightarrow> v \<noteq> []"
  using truthy_buildCookieValue [of accounts a] buildCookieValue_None_iff [of accounts a]
  by (cases "v = []") auto

lemma interceptRequests_loop_first_match:
  assumes "\<forall>q \<in> set pre. \<exists>re'. RE (urlPattern q @ ''|__account__='' @ account q) = Some re'
                              \<and> \<not> re' url"
    and "RE (urlPattern r @ ''|__account__='' @ account r) = Some re"
    and "re url"
  shows "interceptRequests_loop RE accounts url (pre @ r # post) hs =
           Inr (case buildCookieValue accounts (account r) of
                  None \<Rightarrow> hs
                | Some v \<Rightarrow> setCookieHeaders v hs)"
  using assms
proof (induction pre)
  case Nil
  then show ?case
    by (cases "buildCookieValue accounts (account r)")
       (auto simp: Let_def dest: buildCookieValue_Some_nonempty)
next
  case (Cons q pre)
  from Cons.prems(1) obtain re' where
    "RE (urlPattern q @ ''|__account__='' @ account q) = Some re'" and "\<not> re' url"
    by auto
  moreover have "interceptRequests_loop RE accounts url (pre @ r # post) hs =
           Inr (case buildCookieValue accounts (account r) of
                  None \<Rightarrow> hs
                | Some v \<Rightarrow> setCookieHeaders v hs)"
    using Cons by simp
  ultimately show ?case
    by (simp add: Let_def)
qed

lemma interceptRequests_loop_first_invalid:
  assumes "\<forall>q \<in> set pre. \<exists>re'. RE (urlPattern q @ ''|__account__='' @ account q) = Some re'
                              \<and> \<not> re' url"
    and "RE (urlPattern r @ ''|__account__='' @ account r) = None"
  shows "interceptRequests_loop RE accounts url (pre @ r # post) hs =
           Inl (SyntaxError (urlPattern r @ ''|__account__='' @ account r))"
  using assms
proof (induction pre)
  case Nil
  then show ?case by (simp add: Let_def)
next
  case (Cons q pre)
  from Cons.prems(1) obtain re' where
    "RE (urlPattern q @ ''|__account__='' @ account q) = Some re'" and "\<not> re' url"
    by auto
  moreover have "interceptRequests_loop RE accounts url (pre @ r # post) hs =
           Inl (SyntaxError (urlPattern r @ ''|__account__='' @ account r))"
    using Cons by simp
  ultimately show ?case
    by (simp add: Let_def)
qed

lemma interceptRequests_loop_no_match:
  assumes "\<forall>q \<in> set rs. \<exists>re'. RE (urlPattern q @ ''|__account__='' @ account q) = Some re'
                             \<and> \<not> re' url"
  shows "interceptRequests_loop RE accounts url rs hs = Inr hs"
  using assms
proof (induction rs)
  case Nil
  then show ?case by simp
next
  case (Cons q rs)
  from Cons.prems obtain re' where
    "RE (urlPattern q @ ''|__account__='' @ account q) = Some re'" and "\<not> re' url"
    by auto
  moreover have "interceptRequests_loop RE accounts url rs hs = Inr hs"
    using Cons by simp
  ultimately show ?case
    by (simp add: Let_def)
qed

lemma toLowerCase_Cookie: "toLowerCase ''Cookie'' = ''cookie''"
  by code_simp

lemma toLowerCase_Accept: "toLowerCase ''Accept'' = ''accept''"
  by code_simp

text \<open>
  Claim C6 as stated fails. The rule list is alice/+ followed by bob//acme/, and the
  request goes to https://github.com/acme/x with the header Cookie: foo=bar. The combined
  pattern of alice, \<open>+|__account__=alice\<close>, is not a regular expression, so the first
  rule whose combined pattern matches the URL is the rule of bob, which alone would set the
  header to the cookie of bob. The listener does not apply it: \<^verbatim>\<open>new RegExp\<close> throws at
  the rule of alice and the listener ends with that error.
\<close>

theorem interceptRequests_invalid_pattern_counterexample:
  "interceptRequests checkedRegExp aliceSession
     [\<lparr> account = ''alice'', urlPattern = ''+'' \<rparr>,
      \<lparr> account = ''bob'', urlPattern = ''/acme/'' \<rparr>]
     \<lparr> details_url = ''https://github.com/acme/x'',
       details_requestHeaders =
         Some [\<lparr> http_name = ''Cookie'', http_value = Some ''foo=bar'', binaryValue = None \<rparr>] \<rparr>
   = Inl (SyntaxError ''+|__account__=alice'')
   \<and> interceptRequests checkedRegExp aliceSession
     [\<lparr> account = ''bob'', urlPattern = ''/acme/'' \<rparr>]
     \<lparr> details_url = ''https://github.com/acme/x'',
       details_requestHeaders =
         Some [\<lparr> http_name = ''Cookie'', http_value = Some ''foo=bar'', binaryValue = None \<rparr>] \<rparr>
   = Inr (Some [\<lparr> http_name = ''Cookie'', http_value = Some ''t=y; __account__=bob'',
                   binaryValue = None \<rparr>])"
proof
  show "interceptRequests checkedRegExp aliceSession
     [\<lparr> account = ''alice'', urlPattern = ''+'' \<rparr>,
      \<lparr> account = ''bob'', urlPattern = ''/acme/'' \<rparr>]
     \<lparr> details_url = ''https://github.com/acme/x'',
       details_requestHeaders =
         Some [\<lparr> http_name = ''Cookie'', http_value = Some ''foo=bar'', binaryValue = None \<rparr>] \<rparr>
   = Inl (SyntaxError ''+|__account__=alice'')"
    by (simp add: interceptRequests_def checkedRegExp_def)
next
  show "interceptRequests checkedRegExp aliceSession
     [\<lparr> account = ''bob'', urlPattern = ''/acme/'' \<rparr>]
     \<lparr> details_url = ''https://github.com/acme/x'',
       details_requestHeaders =
         Some [\<lparr> http_name = ''Cookie'', http_value = Some ''foo=bar'', binaryValue = None \<rparr>] \<rparr>
   = Inr (Some [\<lparr> http_name = ''Cookie'', http_value = Some ''t=y; __account__=bob'',
                   binaryValue = None \<rparr>])"
    by (simp add: interceptRequests_def checkedRegExp_def literalRegExp_def
        buildCookieValue_def aliceSession_def setCookieHeaders_def toLowerCase_Cookie)
qed

text \<open>
  Claim C6, amended. For every outgoing request with headers that the fallback
  interceptor handles, the rule list is evaluated in declared order, and the combined
  pattern \<open>urlPattern|__account__=account\<close> of a rule is compiled when the loop reaches
  it. When the patterns of all rules before the first rule whose combined pattern tests
  true on the request URL compile, only that rule is applied: when \<open>buildCookieValue\<close> for
  its account is non-empty, every header whose lower-cased name is cookie gets that value,
  in place; the rules after it play no part in the result. A request with the Cookie
  header "foo=bar" that matches the rule for alice (cookies s=x) at the head of the list
  ends with the header value "s=x; __account__=alice", whatever rules follow. When the loop
  reaches a rule whose combined pattern does not compile before any rule has matched, the
  listener ends with the \<open>SyntaxError\<close> and no rule is applied, the later ones included.
  When every pattern compiles and none tests true, the headers come back unchanged.
\<close>

theorem interceptRequests_first_match:
  "((\<forall>q \<in> set pre. \<exists>re'. RE (urlPattern q @ ''|__account__='' @ account q) = Some re'
                          \<and> \<not> re' url) \<and>
    RE (urlPattern r @ ''|__account__='' @ account r) = Some re \<and> re url \<longrightarrow>
      interceptRequests RE accounts (pre @ r # post)
          \<lparr> details_url = url, details_requestHeaders = Some hs \<rparr> =
        Inr (Some (case buildCookieValue accounts (account r) of
                     None \<Rightarrow> hs
                   | Some v \<Rightarrow>
                       map (\<lambda>h. if toLowerCase (http_name h) = ''cookie''
                                 then h\<lparr> http_value := Some v \<rparr> else h) hs)))
   \<and> ((\<exists>acc. accounts ''alice'' = Some acc \<and>
              cookies acc = [\<lparr> cookie_name = ''s'', cookie_value = ''x'' \<rparr>]) \<and>
       RE (p @ ''|__account__='' @ ''alice'') = Some re \<and> re url \<longrightarrow>
      interceptRequests RE accounts (\<lparr> account = ''alice'', urlPattern = p \<rparr> # post)
          \<lparr> details_url = url,
            details_requestHeaders =
              Some [\<lparr> http_name = ''Cookie'', http_value = Some ''foo=bar'',
                      binaryValue = None \<rparr>] \<rparr> =
        Inr (Some [\<lparr> http_name = ''Cookie'', http_value = Some ''s=x; __account__=alice'',
                     binaryValue = None \<rparr>]))
   \<and> ((\<forall>q \<in> set pre. \<exists>re'. RE (urlPattern q @ ''|__account__='' @ account q) = Some re'
                          \<and> \<not> re' url) \<and>
       RE (urlPattern r @ ''|__account__='' @ account r) = None \<longrightarrow>
      interceptRequests RE accounts (pre @ r # post)
          \<lparr> details_url = url, details_requestHeaders = Some hs \<rparr> =
        Inl (SyntaxError (urlPattern r @ ''|__account__='' @ account r)))
   \<and> ((\<forall>q \<in> set rs. \<exists>re'. RE (urlPattern q @ ''|__account__='' @ account q) = Some re'
                         \<and> \<not> re' url) \<longrightarrow>
      interceptRequests RE accounts rs
          \<lparr> details_url = url, details_requestHeaders = Some hs \<rparr> = Inr (Some hs))"
proof (intro conjI impI)
  assume h: "(\<forall>q \<in> set pre. \<exists>re'. RE (urlPattern q @ ''|__account__='' @ account q) = Some re'
                          \<and> \<not> re' url) \<and>
    RE (urlPattern r @ ''|__account__='' @ account r) = Some re \<and> re url"
  then have "interceptRequests_loop RE accounts url (pre @ r # post) hs =
           Inr (case buildCookieValue accounts (account r) of
                  None \<Rightarrow> hs
                | Some v \<Rightarrow> setCookieHeaders v hs)"
    using interceptRequests_loop_first_match [of pre RE url r re accounts post hs] by blast
  then show "interceptRequests RE accounts (pre @ r # post)
          \<lparr> details_url = url, details_requestHeaders = Some hs \<rparr> =
        Inr (Some (case buildCookieValue accounts (account r) of
                     None \<Rightarrow> hs
                   | Some v \<Rightarrow>
                       map (\<lambda>h. if toLowerCase (http_name h) = ''cookie''
                                 then h\<lparr> http_value := Some v \<rparr> else h) hs))"
    by (simp add: interceptRequests_def setCookieHeaders_def split: option.split)
next
  assume h: "(\<exists>acc. accounts ''alice'' = Some acc \<and>
              cookies acc = [\<lparr> cookie_name = ''s'', cookie_value = ''x'' \<rparr>]) \<and>
       RE (p @ ''|__account__='' @ ''alice'') = Some re \<and> re url"
  then have cv: "buildCookieValue accounts ''alice'' = Some ''s=x; __account__=alice''"
    by (auto simp: buildCookieValue_def)
  from h have "interceptRequests_loop RE accounts url
                 ([] @ \<lparr> account = ''alice'', urlPattern = p \<rparr> # post)
                 [\<lparr> http_name = ''Cookie'', http_value = Some ''foo=bar'',
                     binaryValue = None \<rparr>] =
           Inr (setCookieHeaders ''s=x; __account__=alice''
                 [\<lparr> http_name = ''Cookie'', http_value = Some ''foo=bar'',
                     binaryValue = None \<rparr>])"
    using interceptRequests_loop_first_match
      [of "[]" RE url "\<lparr> account = ''alice'', urlPattern = p \<rparr>" re accounts post]
    by (simp add: cv)
  then show "interceptRequests RE accounts (\<lparr> account = ''alice'', urlPattern = p \<rparr> # post)
          \<lparr> details_url = url,
            details_requestHeaders =
              Some [\<lparr> http_name = ''Cookie'', http_value = Some ''foo=bar'',
                      binaryValue = None \<rparr>] \<rparr> =
        Inr (Some [\<lparr> http_name = ''Cookie'', http_value = Some ''s=x; __account__=alice'',
                     binaryValue = None \<rparr>])"
    by (simp add: interceptRequests_def setCookieHeaders_def toLowerCase_Cookie)
next
  assume "(\<forall>q \<in> set pre. \<exists>re'. RE (urlPattern q @ ''|__account__='' @ account q) = Some re'
                          \<and> \<not> re' url) \<and>
       RE (urlPattern r @ ''|__account__='' @ account r) = None"
  then have "interceptRequests_loop RE accounts url (pre @ r # post) hs =
           Inl (SyntaxError (urlPattern r @ ''|__account__='' @ account r))"
    using interceptRequests_loop_first_invalid [of pre RE url r accounts post hs] by blast
  then show "interceptRequests RE accounts (pre @ r # post)
          \<lparr> details_url = url, details_requestHeaders = Some hs \<rparr> =
        Inl (SyntaxError (urlPattern r @ ''|__account__='' @ account r))"
    by (simp add: interceptRequests_def)
next
  assume "\<forall>q \<in> set rs. \<exists>re'. RE (urlPattern q @ ''|__account__='' @ account q) = Some re'
                         \<and> \<not> re' url"
  then have "interceptRequests_loop RE accounts url rs hs = Inr hs"
    by (rule interceptRequests_loop_no_match)
  then show "interceptRequests RE accounts rs
          \<lparr> details_url = url, details_requestHeaders = Some hs \<rparr> = Inr (Some hs)"
    by (simp add: interceptRequests_def)
qed

theorem interceptRequests_first_match_witness:
  "interceptRequests checkedRegExp aliceSession
     [\<lparr> account = ''carol'', urlPattern = ''/other/'' \<rparr>,
      \<lparr> account = ''alice'', urlPattern = ''/acme/'' \<rparr>,
      \<lparr> account = ''bob'', urlPattern = ''/acme/'' \<rparr>]
     \<lparr> details_url = ''https://github.com/acme/x'',
       details_requestHeaders =
         Some [\<lparr> http_name = ''Accept'', http_value = Some ''*'', binaryValue = None \<rparr>,
               \<lparr> http_name = ''Cookie'', http_value = Some ''foo=bar'', binaryValue = None \<rparr>] \<rparr>
   = Inr (Some [\<lparr> http_name = ''Accept'', http_value = Some ''*'', binaryValue = None \<rparr>,
                \<lparr> http_name = ''Cookie'', http_value = Some ''s=x; __account__=alice'',
                   binaryValue = None \<rparr>])
   \<and> interceptRequests checkedRegExp aliceSession
     [\<lparr> account = ''alice'', urlPattern = ''/acme/'' \<rparr>,
      \<lparr> account = ''bob'', urlPattern = ''/acme/'' \<rparr>]
     \<lparr> details_url = ''https://github.com/acme/x'',
       details_requestHeaders =
         Some [\<lparr> http_name = ''Cookie'', http_value = Some ''foo=bar'', binaryValue = None \<rparr>] \<rparr>
   = Inr (Some [\<lparr> http_name = ''Cookie'', http_value = Some ''s=x; __account__=alice'',
                   binaryValue = None \<rparr>])
   \<and> interceptRequests checkedRegExp aliceSession
     [\<lparr> account = ''carol'', urlPattern = ''/other/'' \<rparr>,
      \<lparr> account = ''alice'', urlPattern = ''+'' \<rparr>,
      \<lparr> account = ''bob'', urlPattern = ''/acme/'' \<rparr>]
     \<lparr> details_url = ''https://github.com/acme/x'',
       details_requestHeaders =
         Some [\<lparr> http_name = ''Cookie'', http_value = Some ''foo=bar'', binaryValue = None \<rparr>] \<rparr>
   = Inl (SyntaxError ''+|__account__=alice'')
   \<and> interceptRequests checkedRegExp aliceSession
     [\<lparr> account = ''carol'', urlPattern = ''/other/'' \<rparr>]
     \<lparr> details_url = ''https://github.com/acme/x'',
       details_requestHeaders =
         Some [\<lparr> http_name = ''Cookie'', http_value = Some ''foo=bar'', binaryValue = None \<rparr>] \<rparr>
   = Inr (Some [\<lparr> http_name = ''Cookie'', http_value = Some ''foo=bar'', binaryValue = None \<rparr>])"
proof -
  define re where "re = (\<lambda>s. list_ex (\<lambda>a. occursIn a s)
                            (alternatives [] (''/acme/'' @ ''|__account__='' @ ''alice'')))"
  have pre: "\<forall>q \<in> set [\<lparr> account = ''carol'', urlPattern = ''/other/'' \<rparr>].
               \<exists>re'. checkedRegExp (urlPattern q @ ''|__account__='' @ account q) = Some re'
                     \<and> \<not> re' ''https://github.com/acme/x''"
    by (simp add: checkedRegExp_def literalRegExp_def)
  have compiled: "checkedRegExp (''/acme/'' @ ''|__account__='' @ ''alice'') = Some re"
    by (simp add: checkedRegExp_def literalRegExp_def re_def)
  have matches: "re ''https://github.com/acme/x''"
    by (simp add: re_def)
  have store: "\<exists>acc. aliceSession ''alice'' = Some acc \<and>
                 cookies acc = [\<lparr> cookie_name = ''s'', cookie_value = ''x'' \<rparr>]"
    by (simp add: aliceSession_def)
  have invalid: "checkedRegExp (''+'' @ ''|__account__='' @ ''alice'') = None"
    by (simp add: checkedRegExp_def)
  have cv: "buildCookieValue aliceSession ''alice'' = Some ''s=x; __account__=alice''"
    by (simp add: buildCookieValue_def aliceSession_def)
  note inst = interceptRequests_first_match
    [where pre = "[\<lparr> account = ''carol'', urlPattern = ''/other/'' \<rparr>]"
       and RE = checkedRegExp and url = "''https://github.com/acme/x''"
       and r = "\<lparr> account = ''alice'', urlPattern = ''/acme/'' \<rparr>" and re = re
       and accounts = aliceSession
       and post = "[\<lparr> account = ''bob'', urlPattern = ''/acme/'' \<rparr>]"
       and p = "''/acme/''"
       and rs = "[\<lparr> account = ''carol'', urlPattern = ''/other/'' \<rparr>]"
       and hs = "[\<lparr> http_name = ''Accept'', http_value = Some ''*'', binaryValue = None \<rparr>,
                  \<lparr> http_name = ''Cookie'', http_value = Some ''foo=bar'',
                     binaryValue = None \<rparr>]"]
  note inst' = interceptRequests_first_match
    [where pre = "[\<lparr> account = ''carol'', urlPattern = ''/other/'' \<rparr>]"
       and RE = checkedRegExp and url = "''https://github.com/acme/x''"
       and r = "\<lparr> account = ''alice'', urlPattern = ''+'' \<rparr>"
       and accounts = aliceSession
       and post = "[\<lparr> account = ''bob'', urlPattern = ''/acme/'' \<rparr>]"
       and rs = "[\<lparr> account = ''carol'', urlPattern = ''/other/'' \<rparr>]"
       and hs = "[\<lparr> http_name = ''Cookie'', http_value = Some ''foo=bar'',
                     binaryValue = None \<rparr>]"]
  have first: "interceptRequests checkedRegExp aliceSession
     [\<lparr> account = ''carol'', urlPattern = ''/other/'' \<rparr>,
      \<lparr> account = ''alice'', urlPattern = ''/acme/'' \<rparr>,
      \<lparr> account = ''bob'', urlPattern = ''/acme/'' \<rparr>]
     \<lparr> details_url = ''https://github.com/acme/x'',
       details_requestHeaders =
         Some [\<lparr> http_name = ''Accept'', http_value = Some ''*'', binaryValue = None \<rparr>,
               \<lparr> http_name = ''Cookie'', http_value = Some ''foo=bar'', binaryValue = None \<rparr>] \<rparr>
   = Inr (Some [\<lparr> http_name = ''Accept'', http_value = Some ''*'', binaryValue = None \<rparr>,
                \<lparr> http_name = ''Cookie'', http_value = Some ''s=x; __account__=alice'',
                   binaryValue = None \<rparr>])"
    using inst [THEN conjunct1] pre compiled matches
    by (simp add: cv toLowerCase_Cookie toLowerCase_Accept)
  have second: "interceptRequests checkedRegExp aliceSession
     [\<lparr> account = ''alice'', urlPattern = ''/acme/'' \<rparr>,
      \<lparr> account = ''bob'', urlPattern = ''/acme/'' \<rparr>]
     \<lparr> details_url = ''https://github.com/acme/x'',
       details_requestHeaders =
         Some [\<lparr> http_name = ''Cookie'', http_value = Some ''foo=bar'', binaryValue = None \<rparr>] \<rparr>
   = Inr (Some [\<lparr> http_name = ''Cookie'', http_value = Some ''s=x; __account__=alice'',
                   binaryValue = None \<rparr>])"
    using inst [THEN conjunct2, THEN conjunct1] store compiled matches
    by simp
  have third: "interceptRequests checkedRegExp aliceSession
     [\<lparr> account = ''carol'', urlPattern = ''/other/'' \<rparr>,
      \<lparr> account = ''alice'', urlPattern = ''+'' \<rparr>,
      \<lparr> account = ''bob'', urlPattern = ''/acme/'' \<rparr>]
     \<lparr> details_url = ''https://github.com/acme/x'',
       details_requestHeaders =
         Some [\<lparr> http_name = ''Cookie'', http_value = Some ''foo=bar'', binaryValue = None \<rparr>] \<rparr>
   = Inl (SyntaxError ''+|__account__=alice'')"
    using inst' [THEN conjunct2, THEN conjunct2, THEN conjunct1] pre invalid
    by simp
  have fourth: "interceptRequests checkedRegExp aliceSession
     [\<lparr> account = ''carol'', urlPattern = ''/other/'' \<rparr>]
     \<lparr> details_url = ''https://github.com/acme/x'',
       details_requestHeaders =
         Some [\<lparr> http_name = ''Cookie'', http_value = Some ''foo=bar'', binaryValue = None \<rparr>] \<rparr>
   = Inr (Some [\<lparr> http_name = ''Cookie'', http_value = Some ''foo=bar'', binaryValue = None \<rparr>])"
    using inst' [THEN conjunct2, THEN conjunct2, THEN conjunct2] pre
    by simp
  from first second third fourth show ?thesis
    by (intro conjI)
qed

lemma buildAddRules_skips_empty:
  "\<not> hasCookies accounts (account (rs ! i)) \<Longrightarrow>
   Suc i \<notin> set (map rule_id (buildAddRules accounts rs))"
  by (auto simp: buildAddRules_eq compiledRule_def)

lemma interceptRequests_loop_no_cookies:
  "\<not> hasCookies accounts (account r) \<Longrightarrow>
   RE (urlPattern r @ ''|__account__='' @ account r) = Some re \<Longrightarrow>
   interceptRequests_loop RE accounts url (r # post) hs =
     (if re url then Inr hs else interceptRequests_loop RE accounts url post hs)"
  by (simp add: Let_def truthy_buildCookieValue)

text \<open>
  Claim C3, run on a concrete input. The rule list is alice//acme/ followed by
  bob//acme/; the store knows only bob, with the cookie s=x; the request goes to
  https://github.com/acme/x with the header Cookie: foo=bar. The compiler emits no rule
  for alice and one rule, with id 2, for bob. The fallback interceptor stops at the rule of
  alice, whose pattern tests true, and leaves the header as it was; the same request
  against the list without the rule of alice gets the cookie of bob. So the cookie-less
  rule of alice keeps the later rule of bob from matching.
\<close>

theorem interceptRequests_empty_rule_shadows:
  "map rule_id (buildAddRules bobOnly
      [\<lparr> account = ''alice'', urlPattern = ''/acme/'' \<rparr>,
       \<lparr> account = ''bob'', urlPattern = ''/acme/'' \<rparr>]) = [2]
   \<and> interceptRequests literalRegExp bobOnly
      [\<lparr> account = ''alice'', urlPattern = ''/acme/'' \<rparr>,
       \<lparr> account = ''bob'', urlPattern = ''/acme/'' \<rparr>]
      \<lparr> details_url = ''https://github.com/acme/x'',
        details_requestHeaders =
          Some [\<lparr> http_name = ''Cookie'', http_value = Some ''foo=bar'', binaryValue = None \<rparr>] \<rparr>
     = Inr (Some [\<lparr> http_name = ''Cookie'', http_value = Some ''foo=bar'',
                     binaryValue = None \<rparr>])
   \<and> interceptRequests literalRegExp bobOnly
      [\<lparr> account = ''bob'', urlPattern = ''/acme/'' \<rparr>]
      \<lparr> details_url = ''https://github.com/acme/x'',
        details_requestHeaders =
          Some [\<lparr> http_name = ''Cookie'', http_value = Some ''foo=bar'', binaryValue = None \<rparr>] \<rparr>
     = Inr (Some [\<lparr> http_name = ''Cookie'', http_value = Some ''s=x; __account__=bob'',
                     binaryValue = None \<rparr>])"
proof (intro conjI)
  have "[0..<length [\<lparr> account = ''alice'', urlPattern = ''/acme/'' \<rparr>,
                      \<lparr> account = ''bob'', urlPattern = ''/acme/'' \<rparr>]] = [0, Suc 0]"
    by (simp add: upt_conv_Cons)
  then show "map rule_id (buildAddRules bobOnly
      [\<lparr> account = ''alice'', urlPattern = ''/acme/'' \<rparr>,
       \<lparr> account = ''bob'', urlPattern = ''/acme/'' \<rparr>]) = [2]"
    by (simp add: buildAddRules_eq compiledRule_def hasCookies_def bobOnly_def)
next
  show "interceptRequests literalRegExp bobOnly
      [\<lparr> account = ''alice'', urlPattern = ''/acme/'' \<rparr>,
       \<lparr> account = ''bob'', urlPattern = ''/acme/'' \<rparr>]
      \<lparr> details_url = ''https://github.com/acme/x'',
        details_requestHeaders =
          Some [\<lparr> http_name = ''Cookie'', http_value = Some ''foo=bar'', binaryValue = None \<rparr>] \<rparr>
     = Inr (Some [\<lparr> http_name = ''Cookie'', http_value = Some ''foo=bar'',
                     binaryValue = None \<rparr>])"
    by (simp add: interceptRequests_def literalRegExp_def buildCookieValue_def bobOnly_def)
next
  show "interceptRequests literalRegExp bobOnly
      [\<lparr> account = ''bob'', urlPattern = ''/acme/'' \<rparr>]
      \<lparr> details_url = ''https://github.com/acme/x'',
        details_requestHeaders =
          Some [\<lparr> http_name = ''Cookie'', http_value = Some ''foo=bar'', binaryValue = None \<rparr>] \<rparr>
     = Inr (Some [\<lparr> http_name = ''Cookie'', http_value = Some ''s=x; __account__=bob'',
                     binaryValue = None \<rparr>])"
    by (simp add: interceptRequests_def literalRegExp_def buildCookieValue_def bobOnly_def
        setCookieHeaders_def toLowerCase_Cookie)
qed


section \<open>Properties of the rule synchronizer\<close>

lemma updateDynamicRequestRules_absent:
  "declarativeNetRequest b = None \<Longrightarrow>
   updateDynamicRequestRules engine accounts rs b = (Inr (), b)"
  by (simp add: updateDynamicRequestRules_def)

lemma updateDynamicRequestRules_issued:
  "declarativeNetRequest b = Some existing \<Longrightarrow>
   issued b (snd (updateDynamicRequestRules engine accounts rs b)) =
     [GetDynamicRules,
      UpdateDynamicRules (map rule_id existing) (buildAddRules accounts rs)]
     @ (case engine existing (map rule_id existing) (buildAddRules accounts rs) of
          Inl e \<Rightarrow> []
        | Inr installed \<Rightarrow> [GetDynamicRules, ConsoleInfo installed])"
  by (simp add: updateDynamicRequestRules_def issued_def Let_def split: sum.split)

lemma updateDynamicRequestRules_present:
  "declarativeNetRequest b = Some existing \<Longrightarrow>
   \<exists>installed. declarativeNetRequest (snd (updateDynamicRequestRules engine accounts rs b))
                 = Some installed"
  by (simp add: updateDynamicRequestRules_def Let_def split: sum.split)

text \<open>
  Claim C7. \<open>updateDynamicRequestRules\<close> returns at once, with no call made and nothing
  changed, whenever the declarative filtering API is absent. Otherwise its first two calls
  are: read the installed dynamic rules, then one update whose \<open>removeRuleIds\<close> are the
  ids of all installed rules and whose \<open>addRules\<close> are the rules the compiler has just
  built; that update is the only update call it makes.
\<close>

theorem updateDynamicRequestRules_spec:
  "(declarativeNetRequest b = None \<longrightarrow>
      updateDynamicRequestRules engine accounts rs b = (Inr (), b))
   \<and> (\<forall>existing. declarativeNetRequest b = Some existing \<longrightarrow>
        take 2 (issued b (snd (updateDynamicRequestRules engine accounts rs b))) =
          [GetDynamicRules,
           UpdateDynamicRules (map rule_id existing) (buildAddRules accounts rs)]
        \<and> filter isUpdate (issued b (snd (updateDynamicRequestRules engine accounts rs b))) =
          [UpdateDynamicRules (map rule_id existing) (buildAddRules accounts rs)])"
proof (intro conjI allI impI)
  assume "declarativeNetRequest b = None"
  then show "updateDynamicRequestRules engine accounts rs b = (Inr (), b)"
    by (rule updateDynamicRequestRules_absent)
next
  fix existing
  assume h: "declarativeNetRequest b = Some existing"
  show "take 2 (issued b (snd (updateDynamicRequestRules engine accounts rs b))) =
          [GetDynamicRules,
           UpdateDynamicRules (map rule_id existing) (buildAddRules accounts rs)]"
    by (simp add: updateDynamicRequestRules_issued [OF h])
  show "filter isUpdate (issued b (snd (updateDynamicRequestRules engine accounts rs b))) =
          [UpdateDynamicRules (map rule_id existing) (buildAddRules accounts rs)]"
    by (simp add: updateDynamicRequestRules_issued [OF h] split: sum.split)
qed


theorem updateDynamicRequestRules_spec_witness:
  "updateDynamicRequestRules replaceEngine bobOnly demoRules
       \<lparr> declarativeNetRequest = None, calls = [] \<rparr>
     = (Inr (), \<lparr> declarativeNetRequest = None, calls = [] \<rparr>)
   \<and> take 2 (issued staleBrowser
         (snd (updateDynamicRequestRules replaceEngine bobOnly demoRules staleBrowser)))
     = [GetDynamicRules, UpdateDynamicRules [7] (buildAddRules bobOnly demoRules)]
   \<and> filter isUpdate (issued staleBrowser
         (snd (updateDynamicRequestRules replaceEngine bobOnly demoRules staleBrowser)))
     = [UpdateDynamicRules [7] (buildAddRules bobOnly demoRules)]"
proof -
  have absent: "declarativeNetRequest \<lparr> declarativeNetRequest = None, calls = [] \<rparr> = None"
    by simp
  have present: "declarativeNetRequest staleBrowser =
      Some [compiledRule 6 \<lparr> account = ''bob'', urlPattern = ''/old/'' \<rparr> ''stale'']"
    by (simp add: staleBrowser_def)
  have ids: "map rule_id [compiledRule 6 \<lparr> account = ''bob'', urlPattern = ''/old/'' \<rparr> ''stale'']
      = [7]"
    by (simp add: compiledRule_def)
  from updateDynamicRequestRules_spec
         [of "\<lparr> declarativeNetRequest = None, calls = [] \<rparr>" replaceEngine bobOnly demoRules]
       updateDynamicRequestRules_spec [of staleBrowser replaceEngine bobOnly demoRules]
       absent present ids
  show ?thesis
    by simp
qed

lemma buildAddRules_ids_sorted:
  "sorted_wrt (<) (map rule_id (buildAddRules accounts rs))"
proof -
  have "map rule_id (buildAddRules accounts rs) =
          map Suc (filter (\<lambda>i. hasCookies accounts (account (rs ! i))) [0..<length rs])"
    by (simp add: buildAddRules_eq compiledRule_def o_def)
  moreover have "sorted_wrt (<) (filter (\<lambda>i. hasCookies accounts (account (rs ! i))) [0..<length rs])"
    by (rule sorted_wrt_filter) simp
  ultimately show ?thesis
    by (simp add: sorted_wrt_map)
qed

lemma buildAddRules_patterns_subseq:
  "subseq (map (\<lambda>r. regexFilter (condition r)) (buildAddRules accounts rs))
          (map (\<lambda>r. urlPattern r @ ''|__account__='' @ account r) rs)"
proof -
  let ?pat = "\<lambda>r. urlPattern r @ ''|__account__='' @ account r"
  let ?P = "\<lambda>i. hasCookies accounts (account (rs ! i))"
  have "map (\<lambda>r. regexFilter (condition r)) (buildAddRules accounts rs) =
          map (\<lambda>i. ?pat (rs ! i)) (filter ?P [0..<length rs])"
    by (simp add: buildAddRules_eq compiledRule_def o_def)
  moreover have "subseq (map (\<lambda>i. ?pat (rs ! i)) (filter ?P [0..<length rs]))
                        (map (\<lambda>i. ?pat (rs ! i)) [0..<length rs])"
    by (intro subseq_map subseq_filter_left)
  moreover have "map (\<lambda>i. ?pat (rs ! i)) [0..<length rs] = map ?pat rs"
    by (rule nth_equalityI) simp_all
  ultimately show ?thesis
    by simp
qed

lemma buildAddRules_cong:
  "(\<forall>a \<in> set (map account rs). accounts a = accounts' a) \<Longrightarrow>
   buildAddRules accounts rs = buildAddRules accounts' rs"
proof -
  assume h: "\<forall>a \<in> set (map account rs). accounts a = accounts' a"
  have "\<And>i. i < length rs \<Longrightarrow> accounts (account (rs ! i)) = accounts' (account (rs ! i))"
    using h by simp
  then have "\<And>i. i \<in> set [0..<length rs] \<Longrightarrow>
      hasCookies accounts (account (rs ! i)) = hasCookies accounts' (account (rs ! i)) \<and>
      buildCookieValue accounts (account (rs ! i)) = buildCookieValue accounts' (account (rs ! i))"
    by (simp add: hasCookies_def buildCookieValue_def)
  then show ?thesis
    unfolding buildAddRules_eq
    by (intro map_cong filter_cong) (auto simp: )
qed

lemma replaceEngine_replaces:
  "replaceEngine ex (map rule_id ex) add = Inr add"
  by (simp add: replaceEngine_def)

lemma updateDynamicRequestRules_installed:
  "declarativeNetRequest b = Some existing \<Longrightarrow>
   engine existing (map rule_id existing) (buildAddRules accounts rs) = Inr installed \<Longrightarrow>
   declarativeNetRequest (snd (updateDynamicRequestRules engine accounts rs b)) = Some installed"
  by (simp add: updateDynamicRequestRules_def Let_def)

lemma updateDynamicRequestRules_compiled:
  "declarativeNetRequest b = Some existing \<Longrightarrow>
   map addRules (filter isUpdate
       (issued b (snd (updateDynamicRequestRules engine accounts rs b))))
     = [buildAddRules accounts rs]"
  by (simp add: updateDynamicRequestRules_issued split: sum.split)

text \<open>
  Claim C9. Rule compilation is deterministic and idempotent. Whenever the declarative API
  is present, two consecutive runs of \<open>updateDynamicRequestRules\<close> over the same rule
  store and account store each hand the platform exactly the rule set
  \<open>buildAddRules accounts rs\<close>, whatever the platform had installed before and whether or
  not it accepted the first update; on a platform whose update replaces the removed rules
  by the added ones, the installed set is that rule set after the first run and after the
  second. The compiled set depends on the account store only through the accounts the
  rules name. Its order follows the input order: the ids are strictly increasing and the
  emitted patterns are a subsequence of the patterns of the rule list.
\<close>

theorem compilation_deterministic:
  "(\<forall>existing. declarativeNetRequest b = Some existing \<longrightarrow>
      map addRules (filter isUpdate
          (issued b (snd (updateDynamicRequestRules engine accounts rs b))))
        = [buildAddRules accounts rs]
      \<and> map addRules (filter isUpdate
          (issued (snd (updateDynamicRequestRules engine accounts rs b))
             (snd (updateDynamicRequestRules engine accounts rs
                    (snd (updateDynamicRequestRules engine accounts rs b))))))
        = [buildAddRules accounts rs])
   \<and> (\<forall>existing. declarativeNetRequest b = Some existing \<and>
         (\<forall>ex new. engine ex (map rule_id ex) new = Inr new) \<longrightarrow>
      declarativeNetRequest (snd (updateDynamicRequestRules engine accounts rs b))
        = Some (buildAddRules accounts rs)
      \<and> declarativeNetRequest
          (snd (updateDynamicRequestRules engine accounts rs
                 (snd (updateDynamicRequestRules engine accounts rs b))))
        = Some (buildAddRules accounts rs))
   \<and> ((\<forall>a \<in> set (map account rs). accounts a = accounts' a) \<longrightarrow>
        buildAddRules accounts rs = buildAddRules accounts' rs)
   \<and> sorted_wrt (<) (map rule_id (buildAddRules accounts rs))
   \<and> subseq (map (\<lambda>r. regexFilter (condition r)) (buildAddRules accounts rs))
             (map (\<lambda>r. urlPattern r @ ''|__account__='' @ account r) rs)"
proof (intro conjI allI impI)
  fix existing
  assume h: "declarativeNetRequest b = Some existing"
  show "map addRules (filter isUpdate
          (issued b (snd (updateDynamicRequestRules engine accounts rs b))))
        = [buildAddRules accounts rs]"
    by (rule updateDynamicRequestRules_compiled [OF h])
  from updateDynamicRequestRules_present [OF h, of engine accounts rs]
  obtain installed where
    "declarativeNetRequest (snd (updateDynamicRequestRules engine accounts rs b))
       = Some installed" ..
  then show "map addRules (filter isUpdate
          (issued (snd (updateDynamicRequestRules engine accounts rs b))
             (snd (updateDynamicRequestRules engine accounts rs
                    (snd (updateDynamicRequestRules engine accounts rs b))))))
        = [buildAddRules accounts rs]"
    by (rule updateDynamicRequestRules_compiled)
next
  fix existing
  assume h: "declarativeNetRequest b = Some existing \<and>
         (\<forall>ex new. engine ex (map rule_id ex) new = Inr new)"
  then have first: "declarativeNetRequest (snd (updateDynamicRequestRules engine accounts rs b))
        = Some (buildAddRules accounts rs)"
    by (simp add: updateDynamicRequestRules_installed)
  from h have "engine (buildAddRules accounts rs) (map rule_id (buildAddRules accounts rs))
                 (buildAddRules accounts rs) = Inr (buildAddRules accounts rs)"
    by simp
  from updateDynamicRequestRules_installed
         [where engine = engine and accounts = accounts and rs = rs, OF first this]
  show "declarativeNetRequest
          (snd (updateDynamicRequestRules engine accounts rs
                 (snd (updateDynamicRequestRules engine accounts rs b))))
        = Some (buildAddRules accounts rs)" .
  from first
  show "declarativeNetRequest (snd (updateDynamicRequestRules engine accounts rs b))
        = Some (buildAddRules accounts rs)" .
next
  assume "\<forall>a \<in> set (map account rs). accounts a = accounts' a"
  then show "buildAddRules accounts rs = buildAddRules accounts' rs"
    by (rule buildAddRules_cong)
next
  show "sorted_wrt (<) (map rule_id (buildAddRules accounts rs))"
    by (rule buildAddRules_ids_sorted)
next
  show "subseq (map (\<lambda>r. regexFilter (condition r)) (buildAddRules accounts rs))
             (map (\<lambda>r. urlPattern r @ ''|__account__='' @ account r) rs)"
    by (rule buildAddRules_patterns_subseq)
qed

theorem compilation_deterministic_witness:
  "map addRules (filter isUpdate
       (issued (snd (updateDynamicRequestRules replaceEngine bobOnly demoRules staleBrowser))
          (snd (updateDynamicRequestRules replaceEngine bobOnly demoRules
                 (snd (updateDynamicRequestRules replaceEngine bobOnly demoRules
                        staleBrowser))))))
     = [buildAddRules bobOnly demoRules]
   \<and> declarativeNetRequest
        (snd (updateDynamicRequestRules replaceEngine bobOnly demoRules
               (snd (updateDynamicRequestRules replaceEngine bobOnly demoRules staleBrowser))))
     = Some (buildAddRules bobOnly demoRules)
   \<and> buildAddRules bobOnly demoRules
     = buildAddRules (bobOnly(''carol'' \<mapsto> \<lparr> account_name = ''carol'', cookies = [] \<rparr>))
         demoRules"
proof -
  have present: "declarativeNetRequest staleBrowser =
      Some [compiledRule 6 \<lparr> account = ''bob'', urlPattern = ''/old/'' \<rparr> ''stale'']"
    by (simp add: staleBrowser_def)
  have replaces: "\<forall>ex new. replaceEngine ex (map rule_id ex) new = Inr new"
    by (simp add: replaceEngine_replaces)
  have agree: "\<forall>a \<in> set (map account demoRules).
      bobOnly a = (bobOnly(''carol'' \<mapsto> \<lparr> account_name = ''carol'', cookies = [] \<rparr>)) a"
    by (simp add: demoRules_def)
  from compilation_deterministic
         [of staleBrowser replaceEngine bobOnly demoRules
             "bobOnly(''carol'' \<mapsto> \<lparr> account_name = ''carol'', cookies = [] \<rparr>)"]
       present replaces agree
  show ?thesis
    by simp
qed


section \<open>Properties of the cookie watcher\<close>

lemma watcherInv_cases:
  "watcherInv w \<longleftrightarrow>
     (syncTimer w = None \<and> timeouts w = []) \<or>
     (\<exists>h d. syncTimer w = Some h \<and> 0 < h \<and> timeouts w = [(h, d)] \<and> now w < d \<and> d \<le> now w + 300)"
  by (cases "syncTimer w"; cases "timeouts w") (auto simp: watcherInv_def)

lemma advance_idle: "timeouts w = [] \<Longrightarrow> advance t w = w\<lparr> now := max (now w) t \<rparr>"
  by (simp add: advance_def)

lemma advance_early:
  "timeouts w = [(h, d)] \<Longrightarrow> t < d \<Longrightarrow> advance t w = w\<lparr> now := max (now w) t \<rparr>"
  by (simp add: advance_def)

lemma advance_fires:
  "timeouts w = [(h, d)] \<Longrightarrow> d \<le> t \<Longrightarrow>
   advance t w = w\<lparr> now := max (max (now w) d) t, timeouts := [],
                    syncs := syncs w @ [(max (now w) d, jar w)], syncTimer := None \<rparr>"
  by (simp add: advance_def timerCallback_def)

lemma advance_fires_syncs:
  "timeouts w = [(h, d)] \<Longrightarrow> d \<le> t \<Longrightarrow>
   syncs (advance t w) = syncs w @ [(max (now w) d, jar w)]"
  by (simp add: advance_fires)

lemma scheduleSync_inv:
  "watcherInv w \<Longrightarrow>
   scheduleSync w = w\<lparr> timeouts := [(Suc (lastHandle w), now w + 300)],
                        lastHandle := Suc (lastHandle w),
                        syncTimer := Some (Suc (lastHandle w)) \<rparr>"
  by (auto simp: watcherInv_cases scheduleSync_def setTimeout_def clearTimeout_def Let_def)

lemma watcherInv_scheduleSync: "watcherInv w \<Longrightarrow> watcherInv (scheduleSync w)"
  by (simp add: scheduleSync_inv) (simp add: watcherInv_def)

lemma watcherInv_onChanged: "watcherInv w \<Longrightarrow> watcherInv (onChanged ci w)"
  by (auto simp: onChanged_def watcherInv_scheduleSync)
     (simp add: watcherInv_def cong: option.case_cong)

lemma watcherInv_jar: "watcherInv (w\<lparr> jar := j \<rparr>) = watcherInv w"
  by (simp add: watcherInv_def cong: option.case_cong)

lemma watcherInv_advance: "watcherInv w \<Longrightarrow> watcherInv (advance t w)"
  unfolding watcherInv_cases [of w]
proof (elim disjE exE conjE)
  assume "syncTimer w = None" "timeouts w = []"
  then show ?thesis by (simp add: advance_idle watcherInv_def)
next
  fix h d
  assume h: "syncTimer w = Some h" "0 < h" "timeouts w = [(h, d)]" "now w < d" "d \<le> now w + 300"
  show ?thesis
  proof (cases "t < d")
    case True
    with h show ?thesis by (simp add: advance_early [of w h d] watcherInv_def)
  next
    case False
    with h show ?thesis by (simp add: advance_fires [of w h d] watcherInv_def)
  qed
qed

lemma watcherInv_step: "watcherInv w \<Longrightarrow> watcherInv (step i w)"
  by (cases i) (simp_all add: watcherInv_advance watcherInv_onChanged watcherInv_jar)

lemma watcherInv_run: "watcherInv w \<Longrightarrow> watcherInv (run is w)"
  unfolding run_def
  by (induction "is" arbitrary: w) (simp_all add: watcherInv_step)

lemma watcherInv_initial: "watcherInv (watchCookies j)"
  by (simp add: watcherInv_def watchCookies_def)

lemma watcherInv_at_most_one: "watcherInv w \<Longrightarrow> length (timeouts w) \<le> 1"
  by (auto simp: watcherInv_cases)


lemma onChanged_arms:
  "watcherInv w \<Longrightarrow> arms ci \<Longrightarrow>
   onChanged ci w = w\<lparr> timeouts := [(Suc (lastHandle w), now w + 300)],
                        lastHandle := Suc (lastHandle w),
                        syncTimer := Some (Suc (lastHandle w)) \<rparr>"
  by (simp add: onChanged_def arms_def scheduleSync_inv)

lemma onChanged_not_arms:
  "\<not> arms ci \<Longrightarrow>
   timeouts (onChanged ci w) = timeouts w \<and> syncTimer (onChanged ci w) = syncTimer w \<and>
   syncs (onChanged ci w) = syncs w \<and> now (onChanged ci w) = now w \<and>
   jar (onChanged ci w) = jar w \<and> lastHandle (onChanged ci w) = lastHandle w"
  by (auto simp: onChanged_def arms_def)

lemma run_Nil: "run [] w = w"
  by (simp add: run_def)

lemma run_Cons: "run (i # is) w = run is (step i w)"
  by (simp add: run_def)

lemma run_snoc: "run (is @ [i]) w = step i (run is w)"
  by (simp add: run_def)

lemma run_quiet:
  "watcherInv w \<Longrightarrow> list_all (\<lambda>(h, d). B \<le> d) (timeouts w) \<Longrightarrow>
   now w + elapsed is < B \<Longrightarrow> B \<le> now w + 300 \<Longrightarrow>
   syncs (run is w) = syncs w \<and>
   list_all (\<lambda>(h, d). B \<le> d) (timeouts (run is w)) \<and>
   (list_ex armsInput is \<or> timeouts w \<noteq> [] \<longrightarrow> timeouts (run is w) \<noteq> [])"
proof (induction "is" arbitrary: w)
  case Nil
  then show ?case by (simp add: run_Nil)
next
  case (Cons i "is")
  show ?case
  proof (cases i)
    case (Elapse d)
    have quiet: "advance (now w + d) w = w\<lparr> now := now w + d \<rparr>"
    proof (cases "timeouts w")
      case Nil
      then show ?thesis by (simp add: advance_idle)
    next
      case (Cons p ps)
      with Cons.prems(1) obtain h due where t: "timeouts w = [(h, due)]"
        by (auto simp: watcherInv_cases)
      with Cons.prems(2,3) Elapse have "now w + d < due"
        by simp
      with t show ?thesis by (simp add: advance_early [of w h due])
    qed
    have inv: "watcherInv (w\<lparr> now := now w + d \<rparr>)"
      using watcherInv_advance [OF Cons.prems(1), of "now w + d"] quiet by simp
    from Cons.IH [OF inv] Cons.prems Elapse quiet show ?thesis
      by (simp add: run_Cons)
  next
    case (CookieChanged j ci)
    have inv0: "watcherInv (w\<lparr> jar := j \<rparr>)"
      using Cons.prems(1) by (simp add: watcherInv_jar)
    have inv: "watcherInv (onChanged ci (w\<lparr> jar := j \<rparr>))"
      by (rule watcherInv_onChanged [OF inv0])
    show ?thesis
    proof (cases "arms ci")
      case True
      from Cons.IH [OF inv] Cons.prems CookieChanged True show ?thesis
        by (simp add: run_Cons onChanged_arms [OF inv0 True])
    next
      case False
      from Cons.IH [OF inv] Cons.prems CookieChanged False
        onChanged_not_arms [OF False, of "w\<lparr> jar := j \<rparr>"]
      show ?thesis
        by (simp add: run_Cons)
    qed
  qed
qed

lemma burst_one_sync:
  assumes idle: "syncTimer w = None" "timeouts w = []"
    and some: "list_ex armsInput is"
    and window: "elapsed is < 300"
    and wait: "300 \<le> d"
  shows "\<exists>t. syncs (run (is @ [Elapse d]) w) = syncs w @ [(t, jar (run is w))]"
proof -
  have inv: "watcherInv w"
    using idle by (simp add: watcherInv_def)
  have q: "syncs (run is w) = syncs w \<and>
      list_all (\<lambda>(h, d). now w + 300 \<le> d) (timeouts (run is w)) \<and>
      (list_ex armsInput is \<or> timeouts w \<noteq> [] \<longrightarrow> timeouts (run is w) \<noteq> [])"
    using run_quiet [OF inv, of "now w + 300" "is"] idle window by simp
  have inv': "watcherInv (run is w)"
    by (rule watcherInv_run [OF inv])
  from q some have "timeouts (run is w) \<noteq> []"
    by simp
  with inv' obtain h due where
    t: "timeouts (run is w) = [(h, due)]" and
    b: "now (run is w) < due" "due \<le> now (run is w) + 300"
    by (auto simp: watcherInv_cases)
  from b wait have "due \<le> now (run is w) + d"
    by simp
  from advance_fires [OF t this] q b
  have "syncs (run (is @ [Elapse d]) w) = syncs w @ [(due, jar (run is w))]"
    by (simp add: run_snoc max_def)
  then show ?thesis ..
qed


lemma fire_badge: "fire ds (w\<lparr> badge := b \<rparr>) = (fire ds w)\<lparr> badge := b \<rparr>"
proof (induction ds arbitrary: w)
  case Nil
  show ?case by simp
next
  case (Cons p ds)
  obtain h d where p: "p = (h, d)"
    by (cases p)
  let ?w1 = "timerCallback
       (w\<lparr> now := max (now w) d,
           timeouts := filter (\<lambda>(h', d'). h' \<noteq> h) (timeouts w) \<rparr>)"
  have "timerCallback
       ((w\<lparr> badge := b \<rparr>)\<lparr> now := max (now (w\<lparr> badge := b \<rparr>)) d,
           timeouts := filter (\<lambda>(h', d'). h' \<noteq> h) (timeouts (w\<lparr> badge := b \<rparr>)) \<rparr>)
        = ?w1\<lparr> badge := b \<rparr>"
    by (simp add: timerCallback_def)
  then have "fire (p # ds) (w\<lparr> badge := b \<rparr>) = fire ds (?w1\<lparr> badge := b \<rparr>)"
    by (simp only: p fire.simps)
  also have "\<dots> = (fire ds ?w1)\<lparr> badge := b \<rparr>"
    by (rule Cons.IH)
  finally show ?case
    by (simp only: p fire.simps)
qed

lemma advance_badge: "advance t (w\<lparr> badge := b \<rparr>) = (advance t w)\<lparr> badge := b \<rparr>"
  by (simp add: advance_def fire_badge Let_def)

lemmas watcher_eval =
  run_def onChanged_def scheduleSync_def setTimeout_def clearTimeout_def advance_def
  timerCallback_def watchCookies_def AUTH_COOKIES_def setCookie_def removeCookie_def Let_def

text \<open>
  Claim C8. On a change notification that is a removal of the primary identity cookie
  \<open>dotcom_user\<close>, the listener makes exactly one badge update call, with the text "...",
  and does nothing else: the timer table and \<open>syncTimer\<close> stay as they were, no account
  sync is invoked, and however far time advances afterwards the account syncs are those
  that would have run without the event.
\<close>

theorem primary_cookie_removal:
  "cookie_name (cookie ci) = ''dotcom_user'' \<and> removed ci \<longrightarrow>
     onChanged ci w = w\<lparr> badge := badge w @ [''...''] \<rparr> \<and>
     timeouts (onChanged ci w) = timeouts w \<and>
     syncTimer (onChanged ci w) = syncTimer w \<and>
     syncs (onChanged ci w) = syncs w \<and>
     (\<forall>t. syncs (advance t (onChanged ci w)) = syncs (advance t w))"
  by (simp add: onChanged_def AUTH_COOKIES_def advance_badge)

theorem primary_cookie_removal_witness:
  "badge (run [CookieChanged ''jar1'' (setCookie ''user_session'' ''abc''), Elapse 100,
               CookieChanged ''jar2'' (removeCookie ''dotcom_user'' ''octocat'')]
            (watchCookies ''jar0'')) = [''...'']
   \<and> timeouts (run [CookieChanged ''jar1'' (setCookie ''user_session'' ''abc''), Elapse 100,
               CookieChanged ''jar2'' (removeCookie ''dotcom_user'' ''octocat'')]
            (watchCookies ''jar0'')) = [(1, 300)]
   \<and> syncs (onChanged (removeCookie ''dotcom_user'' ''octocat'') (watchCookies ''jar0'')) = []"
proof -
  have h: "cookie_name (cookie (removeCookie ''dotcom_user'' ''octocat'')) = ''dotcom_user''
           \<and> removed (removeCookie ''dotcom_user'' ''octocat'')"
    by (simp add: removeCookie_def)
  have pending: "run [CookieChanged ''jar1'' (setCookie ''user_session'' ''abc''), Elapse 100]
                   (watchCookies ''jar0'')
      = \<lparr> now = 100, jar = ''jar1'', timeouts = [(1, 300)], lastHandle = 1,
          syncTimer = Some 1, badge = [], syncs = [] \<rparr>"
    by (simp add: watcher_eval)
  have split: "run [CookieChanged ''jar1'' (setCookie ''user_session'' ''abc''), Elapse 100,
               CookieChanged ''jar2'' (removeCookie ''dotcom_user'' ''octocat'')]
            (watchCookies ''jar0'')
      = onChanged (removeCookie ''dotcom_user'' ''octocat'')
          ((run [CookieChanged ''jar1'' (setCookie ''user_session'' ''abc''), Elapse 100]
             (watchCookies ''jar0''))\<lparr> jar := ''jar2'' \<rparr>)"
    by (simp add: run_def)
  from primary_cookie_removal
         [of "removeCookie ''dotcom_user'' ''octocat''"
             "\<lparr> now = 100, jar = ''jar2'', timeouts = [(1, 300)], lastHandle = 1,
                syncTimer = Some 1, badge = [], syncs = [] \<rparr>"]
       primary_cookie_removal
         [of "removeCookie ''dotcom_user'' ''octocat''" "watchCookies ''jar0''"]
       h
  show ?thesis
    by (simp add: split pending) (simp add: watchCookies_def)
qed


text \<open>
  Claim C5. In every state the watcher reaches from its start, at most one timer is
  pending. In every such state a change that arms the timer leaves exactly the new timer
  pending, due 300 ms later: the one pending before is cancelled. From an idle watcher,
  any inputs that contain at least one arming change and during which less than 300 ms
  pass, followed by a wait of 300 ms or more, add exactly one account sync, and that sync
  reads the cookie store as it is after the last input, not as it was at an arming change.
\<close>

theorem debounce_single_timer:
  "length (timeouts (run is (watchCookies j))) \<le> 1
   \<and> (arms ci \<longrightarrow>
        timeouts (onChanged ci (run is (watchCookies j))) =
          [(Suc (lastHandle (run is (watchCookies j))), now (run is (watchCookies j)) + 300)]
        \<and> syncTimer (onChanged ci (run is (watchCookies j))) =
          Some (Suc (lastHandle (run is (watchCookies j)))))
   \<and> (syncTimer w = None \<and> timeouts w = [] \<and> list_ex armsInput burst \<and>
       elapsed burst < 300 \<and> 300 \<le> d \<longrightarrow>
        (\<exists>t. syncs (run (burst @ [Elapse d]) w) = syncs w @ [(t, jar (run burst w))]))"
proof (intro conjI impI)
  have inv: "watcherInv (run is (watchCookies j))"
    by (rule watcherInv_run [OF watcherInv_initial])
  then show "length (timeouts (run is (watchCookies j))) \<le> 1"
    by (rule watcherInv_at_most_one)
  assume a: "arms ci"
  show "timeouts (onChanged ci (run is (watchCookies j))) =
          [(Suc (lastHandle (run is (watchCookies j))), now (run is (watchCookies j)) + 300)]"
    by (simp add: onChanged_arms [OF inv a])
  show "syncTimer (onChanged ci (run is (watchCookies j))) =
          Some (Suc (lastHandle (run is (watchCookies j))))"
    by (simp add: onChanged_arms [OF inv a])
next
  assume "syncTimer w = None \<and> timeouts w = [] \<and> list_ex armsInput burst \<and>
       elapsed burst < 300 \<and> 300 \<le> d"
  then show "\<exists>t. syncs (run (burst @ [Elapse d]) w) = syncs w @ [(t, jar (run burst w))]"
    using burst_one_sync [of w burst d] by blast
qed

theorem debounce_single_timer_witness:
  "(\<exists>t. syncs (run (burst5 @ [Elapse 300]) (watchCookies ''jar0'')) = [(t, ''jar5'')])
   \<and> timeouts (onChanged (setCookie ''_gh_sso'' ''def'')
        (run [CookieChanged ''jar1'' (setCookie ''user_session'' ''abc''), Elapse 100]
           (watchCookies ''jar0''))) = [(2, 400)]
   \<and> length (timeouts (run burst5 (watchCookies ''jar0''))) \<le> 1"
proof -
  have idle: "syncTimer (watchCookies ''jar0'') = None \<and> timeouts (watchCookies ''jar0'') = []"
    by (simp add: watchCookies_def)
  have a: "arms (setCookie ''_gh_sso'' ''def'')"
    by (simp add: arms_def setCookie_def AUTH_COOKIES_def)
  have some: "list_ex armsInput burst5"
    by (simp add: burst5_def arms_def setCookie_def AUTH_COOKIES_def)
  have window: "elapsed burst5 < 300"
    by (simp add: burst5_def)
  have final: "jar (run burst5 (watchCookies ''jar0'')) = ''jar5''"
    by (simp add: burst5_def watcher_eval)
  have pending: "run [CookieChanged ''jar1'' (setCookie ''user_session'' ''abc''), Elapse 100]
                   (watchCookies ''jar0'')
      = \<lparr> now = 100, jar = ''jar1'', timeouts = [(1, 300)], lastHandle = 1,
          syncTimer = Some 1, badge = [], syncs = [] \<rparr>"
    by (simp add: watcher_eval)
  have empty: "syncs (watchCookies ''jar0'') = []"
    by (simp add: watchCookies_def)
  from debounce_single_timer
         [of "[CookieChanged ''jar1'' (setCookie ''user_session'' ''abc''), Elapse 100]"
             "''jar0''" "setCookie ''_gh_sso'' ''def''" "watchCookies ''jar0''" burst5 300]
       debounce_single_timer
         [of burst5 "''jar0''" "setCookie ''_gh_sso'' ''def''" "watchCookies ''jar0''" burst5 300]
       idle a some window
  show ?thesis
    by (simp add: final pending empty)
qed

text \<open>
  Claim C4 as stated fails. A removal of \<open>user_session\<close> on a fresh watcher arms no
  timer, and no account sync runs within the next 300 ms; a removal of \<open>_gh_sso\<close> 100 ms
  after an arming change leaves the pending timer due at 300 ms, not re-armed to 400 ms.
\<close>

theorem auxiliary_cookie_removal_counterexample:
  "timeouts (onChanged (removeCookie ''user_session'' ''abc'') (watchCookies ''jar0'')) = []
   \<and> syncs (run [CookieChanged ''jar1'' (removeCookie ''user_session'' ''abc''), Elapse 300]
              (watchCookies ''jar0'')) = []
   \<and> timeouts (run [CookieChanged ''jar1'' (setCookie ''user_session'' ''abc''), Elapse 100,
                    CookieChanged ''jar2'' (removeCookie ''_gh_sso'' ''def'')]
                 (watchCookies ''jar0'')) = [(1, 300)]"
  by (simp add: watcher_eval)

text \<open>
  Claim C4, amended. A change notification that is a removal of an allow-listed cookie
  other than the primary identity cookie (\<open>user_session\<close>, \<open>_gh_sso\<close> or \<open>logged_in\<close>)
  leaves the watcher as it is: no timer is armed or cancelled and no account sync is
  triggered. It is an addition or update of an allow-listed cookie that, in every state
  the watcher reaches, arms the single 300 ms timer in place of any pending one, so that
  an account sync runs 300 ms later if nothing else arrives.
\<close>

theorem auxiliary_cookie_removal_ignored:
  "(cookie_name (cookie ci) \<in> {''user_session'', ''_gh_sso'', ''logged_in''} \<and> removed ci \<longrightarrow>
      onChanged ci w = w)
   \<and> (cookie_name (cookie ci) \<in> {''dotcom_user'', ''user_session'', ''_gh_sso'', ''logged_in''}
       \<and> \<not> removed ci \<longrightarrow>
        timeouts (onChanged ci (run is (watchCookies j))) =
          [(Suc (lastHandle (run is (watchCookies j))), now (run is (watchCookies j)) + 300)]
        \<and> syncs (run [Elapse 300] (onChanged ci (run is (watchCookies j)))) =
          syncs (run is (watchCookies j))
            @ [(now (run is (watchCookies j)) + 300, jar (run is (watchCookies j)))])"
proof (intro conjI impI)
  assume "cookie_name (cookie ci) \<in> {''user_session'', ''_gh_sso'', ''logged_in''} \<and> removed ci"
  then show "onChanged ci w = w"
    by (auto simp: onChanged_def)
next
  assume h: "cookie_name (cookie ci) \<in> {''dotcom_user'', ''user_session'', ''_gh_sso'', ''logged_in''}
       \<and> \<not> removed ci"
  then have a: "arms ci"
    by (simp add: arms_def AUTH_COOKIES_def)
  have inv: "watcherInv (run is (watchCookies j))"
    by (rule watcherInv_run [OF watcherInv_initial])
  show "timeouts (onChanged ci (run is (watchCookies j))) =
          [(Suc (lastHandle (run is (watchCookies j))), now (run is (watchCookies j)) + 300)]"
    by (simp add: onChanged_arms [OF inv a])
  let ?w = "run is (watchCookies j)"
  let ?w' = "onChanged ci ?w"
  have t: "timeouts ?w' = [(Suc (lastHandle ?w), now ?w + 300)]"
    by (simp add: onChanged_arms [OF inv a])
  have n: "now ?w' = now ?w" "jar ?w' = jar ?w" "syncs ?w' = syncs ?w"
    by (simp_all add: onChanged_arms [OF inv a])
  have "now ?w + 300 \<le> now ?w' + 300"
    by (simp add: n)
  from advance_fires_syncs [OF t this]
  have "syncs (advance (now ?w' + 300) ?w')
          = syncs ?w' @ [(max (now ?w') (now ?w + 300), jar ?w')]" .
  moreover have "run [Elapse 300] ?w' = advance (now ?w' + 300) ?w'"
    by (simp add: run_def)
  ultimately show "syncs (run [Elapse 300] ?w') = syncs ?w @ [(now ?w + 300, jar ?w)]"
    by (simp only: n) simp
qed

theorem auxiliary_cookie_removal_ignored_witness:
  "run [CookieChanged ''jar1'' (setCookie ''user_session'' ''abc''), Elapse 100,
        CookieChanged ''jar2'' (removeCookie ''_gh_sso'' ''def'')] (watchCookies ''jar0'')
     = \<lparr> now = 100, jar = ''jar2'', timeouts = [(1, 300)], lastHandle = 1,
         syncTimer = Some 1, badge = [], syncs = [] \<rparr>
   \<and> syncs (run [Elapse 300]
        (onChanged (setCookie ''_gh_sso'' ''def'')
           (run [CookieChanged ''jar1'' (setCookie ''user_session'' ''abc''), Elapse 100]
              (watchCookies ''jar0'')))) = [(400, ''jar1'')]"
proof -
  have r: "cookie_name (cookie (removeCookie ''_gh_sso'' ''def''))
             \<in> {''user_session'', ''_gh_sso'', ''logged_in''}
           \<and> removed (removeCookie ''_gh_sso'' ''def'')"
    by (simp add: removeCookie_def)
  have s: "cookie_name (cookie (setCookie ''_gh_sso'' ''def''))
             \<in> {''dotcom_user'', ''user_session'', ''_gh_sso'', ''logged_in''}
           \<and> \<not> removed (setCookie ''_gh_sso'' ''def'')"
    by (simp add: setCookie_def)
  have pending: "run [CookieChanged ''jar1'' (setCookie ''user_session'' ''abc''), Elapse 100]
                   (watchCookies ''jar0'')
      = \<lparr> now = 100, jar = ''jar1'', timeouts = [(1, 300)], lastHandle = 1,
          syncTimer = Some 1, badge = [], syncs = [] \<rparr>"
    by (simp add: watcher_eval)
  have split: "run [CookieChanged ''jar1'' (setCookie ''user_session'' ''abc''), Elapse 100,
        CookieChanged ''jar2'' (removeCookie ''_gh_sso'' ''def'')] (watchCookies ''jar0'')
      = onChanged (removeCookie ''_gh_sso'' ''def'')
          ((run [CookieChanged ''jar1'' (setCookie ''user_session'' ''abc''), Elapse 100]
             (watchCookies ''jar0''))\<lparr> jar := ''jar2'' \<rparr>)"
    by (simp add: run_def)
  note ignored = auxiliary_cookie_removal_ignored
         [of "removeCookie ''_gh_sso'' ''def''"
             "\<lparr> now = 100, jar = ''jar2'', timeouts = [(1, 300)], lastHandle = 1,
                syncTimer = Some 1, badge = [], syncs = [] \<rparr>"
             "[]" "''jar0''", THEN conjunct1, THEN mp, OF r]
  note armed = auxiliary_cookie_removal_ignored
         [of "setCookie ''_gh_sso'' ''def''" "watchCookies ''jar0''"
             "[CookieChanged ''jar1'' (setCookie ''user_session'' ''abc''), Elapse 100]"
             "''jar0''", THEN conjunct2, THEN mp, OF s]
  from ignored armed show ?thesis
    by (simp add: split pending)
qed

section \<open>Properties of the message listener\<close>

lemma listener_resolves:
  "listener sv m w =
     (Inr (case fst (handleMessage sv m w) of Inr d \<Rightarrow> Success d | Inl e \<Rightarrow> Failure e),
      snd (handleMessage sv m w))"
  by (simp add: listener_def split: prod.split sum.split)

lemma updateDynamicRequestRules_reading_fulfilled:
  "getAll sv s = Inr rs \<Longrightarrow> awaitFinds (find_account sv s) rs = Inr () \<Longrightarrow>
   updateDynamicRequestRules_reading sv s b =
     updateDynamicRequestRules (platformEngine sv) (foundAccounts (find_account sv s)) rs b"
  by (simp add: updateDynamicRequestRules_reading_def updateDynamicRequestRules_def
      split: option.split)

lemma updateDynamicRequestRules_reading_rejected:
  "declarativeNetRequest b = Some existing \<Longrightarrow> getAll sv s = Inl e \<Longrightarrow>
   updateDynamicRequestRules_reading sv s b = (Inl e, b\<lparr> calls := calls b @ [GetDynamicRules] \<rparr>)"
  by (simp add: updateDynamicRequestRules_reading_def)

lemma listener_removeAccount:
  "message_type m = ''removeAccount'' \<Longrightarrow>
   fst (listener sv m (s, b)) =
     Inr (case fst (removeAccount sv (message_account m) (s, b)) of
            Inr u \<Rightarrow> Success Undefined | Inl e \<Rightarrow> Failure e)"
  by (auto simp: listener_def handleMessage_def settled_def split: prod.split sum.split)

text \<open>
  Claim C10. For every incoming message the listener resolves to a response and never
  rejects: \<open>{success: true, data}\<close> with the handler's data when the handler succeeds,
  \<open>{success: false, error}\<close> with the error when it throws. For each of the five known
  kinds the handler is the call of the matching service, each of which may reject
  (\<open>getAllNames\<close>, \<open>switchTo\<close>, \<open>clear\<close> and \<open>ruleService.getAll\<close>; for \<open>removeAccount\<close>
  the removal followed by the reconciliation of the rules, which fails when the removal
  rejects and when a read of the reconciliation rejects), so the response is a success
  exactly when that call fulfils. For a message of any other kind the handler yields
  \<open>undefined\<close> and touches nothing.
\<close>

theorem listener_spec:
  "(\<forall>d w'. handleMessage sv m w = (Inr d, w') \<longrightarrow> listener sv m w = (Inr (Success d), w'))
   \<and> (\<forall>e w'. handleMessage sv m w = (Inl e, w') \<longrightarrow> listener sv m w = (Inr (Failure e), w'))
   \<and> (\<exists>r w'. listener sv m w = (Inr r, w'))
   \<and> (message_type m = ''getAccounts'' \<longrightarrow>
        fst (listener sv m (s, b)) =
          Inr (case fst (getAllNames sv s) of
                 Inr d \<Rightarrow> Success (Value d) | Inl e \<Rightarrow> Failure e))
   \<and> (message_type m = ''switchAccount'' \<longrightarrow>
        fst (listener sv m (s, b)) =
          Inr (case fst (switchTo sv (message_account m) s) of
                 Inr d \<Rightarrow> Success (Value d) | Inl e \<Rightarrow> Failure e))
   \<and> (message_type m = ''removeAccount'' \<longrightarrow>
        fst (listener sv m (s, b)) =
          Inr (case fst (removeAccount sv (message_account m) (s, b)) of
                 Inr u \<Rightarrow> Success Undefined | Inl e \<Rightarrow> Failure e))
   \<and> (\<forall>e. message_type m = ''removeAccount'' \<and>
            fst (remove sv (message_account m) s) = Inl e \<longrightarrow>
        fst (listener sv m (s, b)) = Inr (Failure e))
   \<and> (\<forall>e s' existing. message_type m = ''removeAccount'' \<and>
            remove sv (message_account m) s = (Inr (), s') \<and>
            declarativeNetRequest b = Some existing \<and> getAll sv s' = Inl e \<longrightarrow>
        fst (listener sv m (s, b)) = Inr (Failure e))
   \<and> (message_type m = ''clearCookies'' \<longrightarrow>
        fst (listener sv m (s, b)) =
          Inr (case fst (clear sv s) of
                 Inr d \<Rightarrow> Success (Value d) | Inl e \<Rightarrow> Failure e))
   \<and> (message_type m = ''getAutoSwitchRules'' \<longrightarrow>
        listener sv m (s, b) =
          (Inr (case getAll sv s of
                  Inr rs \<Rightarrow> Success (RuleList rs) | Inl e \<Rightarrow> Failure e), (s, b)))
   \<and> (message_type m \<notin> set knownKinds \<longrightarrow> handleMessage sv m w = (Inr Undefined, w))"
proof (intro conjI allI impI)
  show "\<exists>r w'. listener sv m w = (Inr r, w')"
    by (simp add: listener_resolves)
next
  assume "message_type m \<notin> set knownKinds"
  then show "handleMessage sv m w = (Inr Undefined, w)"
    by (simp add: handleMessage_def knownKinds_def split: prod.split)
next
  assume "message_type m = ''removeAccount''"
  then show "fst (listener sv m (s, b)) =
          Inr (case fst (removeAccount sv (message_account m) (s, b)) of
                 Inr u \<Rightarrow> Success Undefined | Inl e \<Rightarrow> Failure e)"
    by (rule listener_removeAccount)
next
  fix e
  assume h: "message_type m = ''removeAccount'' \<and>
            fst (remove sv (message_account m) s) = Inl e"
  then have "fst (removeAccount sv (message_account m) (s, b)) = Inl e"
    by (cases "remove sv (message_account m) s") (simp add: removeAccount_def)
  with h show "fst (listener sv m (s, b)) = Inr (Failure e)"
    by (simp add: listener_removeAccount)
next
  fix e s' existing
  assume h: "message_type m = ''removeAccount'' \<and>
            remove sv (message_account m) s = (Inr (), s') \<and>
            declarativeNetRequest b = Some existing \<and> getAll sv s' = Inl e"
  then have "fst (removeAccount sv (message_account m) (s, b)) = Inl e"
    by (simp add: removeAccount_def updateDynamicRequestRules_reading_rejected [of b existing])
  with h show "fst (listener sv m (s, b)) = Inr (Failure e)"
    by (simp add: listener_removeAccount)
qed (auto simp: listener_def handleMessage_def settled_def split: prod.split sum.split)

theorem listener_spec_witness:
  "listener demoServices \<lparr> message_type = ''getAccounts'', message_account = [] \<rparr>
       ([''alice'', ''bob''], staleBrowser)
     = (Inr (Success (Value [''alice'', ''bob''])), ([''alice'', ''bob''], staleBrowser))
   \<and> fst (listener demoServices \<lparr> message_type = ''switchAccount'', message_account = ''zed'' \<rparr>
            ([''alice'', ''bob''], staleBrowser))
     = Inr (Failure (Rejected ''unknown account''))
   \<and> listener demoServices \<lparr> message_type = ''getAutoSwitchRules'', message_account = [] \<rparr>
       ([''alice'', ''bob''], staleBrowser)
     = (Inr (Success (RuleList demoRules)), ([''alice'', ''bob''], staleBrowser))
   \<and> listener brokenRuleStore \<lparr> message_type = ''getAutoSwitchRules'', message_account = [] \<rparr>
       ([''alice'', ''bob''], staleBrowser)
     = (Inr (Failure (Rejected ''storage unavailable'')), ([''alice'', ''bob''], staleBrowser))
   \<and> fst (listener brokenRuleStore
            \<lparr> message_type = ''removeAccount'', message_account = ''alice'' \<rparr>
            ([''alice'', ''bob''], staleBrowser))
     = Inr (Failure (Rejected ''storage unavailable''))
   \<and> fst (listener demoServices
            \<lparr> message_type = ''removeAccount'', message_account = ''zed'' \<rparr>
            ([''alice'', ''bob''], staleBrowser))
     = Inr (Failure (Rejected ''unknown account''))
   \<and> handleMessage demoServices \<lparr> message_type = ''ping'', message_account = [] \<rparr>
       ([''alice'', ''bob''], staleBrowser)
     = (Inr Undefined, ([''alice'', ''bob''], staleBrowser))"
proof -
  let ?w = "([''alice'', ''bob''], staleBrowser)"
  have ok: "handleMessage demoServices \<lparr> message_type = ''getAccounts'', message_account = [] \<rparr>
              ([''alice'', ''bob''], staleBrowser)
      = (Inr (Value [''alice'', ''bob'']), ([''alice'', ''bob''], staleBrowser))"
    by (simp add: handleMessage_def demoServices_def settled_def)
  have first: "listener demoServices \<lparr> message_type = ''getAccounts'', message_account = [] \<rparr> ?w
      = (Inr (Success (Value [''alice'', ''bob''])), ?w)"
    using listener_spec
      [where sv = demoServices
         and m = "\<lparr> message_type = ''getAccounts'', message_account = [] \<rparr>" and w = ?w,
       THEN conjunct1] ok
    by blast
  have second: "fst (listener demoServices
        \<lparr> message_type = ''switchAccount'', message_account = ''zed'' \<rparr> ?w)
      = Inr (Failure (Rejected ''unknown account''))"
    using listener_spec
      [where sv = demoServices
         and m = "\<lparr> message_type = ''switchAccount'', message_account = ''zed'' \<rparr>"
         and s = "[''alice'', ''bob'']" and b = staleBrowser,
       THEN conjunct2, THEN conjunct2, THEN conjunct2, THEN conjunct2, THEN conjunct1]
    by (simp add: demoServices_def)
  have rules: "message_type \<lparr> message_type = ''getAutoSwitchRules'', message_account = [] \<rparr>
      = ''getAutoSwitchRules''"
    by simp
  have third: "listener demoServices
        \<lparr> message_type = ''getAutoSwitchRules'', message_account = [] \<rparr> ?w
      = (Inr (Success (RuleList demoRules)), ?w)"
    using listener_spec
      [where sv = demoServices
         and m = "\<lparr> message_type = ''getAutoSwitchRules'', message_account = [] \<rparr>"
         and s = "[''alice'', ''bob'']" and b = staleBrowser,
       THEN conjunct2, THEN conjunct2, THEN conjunct2, THEN conjunct2, THEN conjunct2,
       THEN conjunct2, THEN conjunct2, THEN conjunct2, THEN conjunct2, THEN conjunct1,
       THEN mp, OF rules]
    by (simp add: demoServices_def)
  have fourth: "listener brokenRuleStore
        \<lparr> message_type = ''getAutoSwitchRules'', message_account = [] \<rparr> ?w
      = (Inr (Failure (Rejected ''storage unavailable'')), ?w)"
    using listener_spec
      [where sv = brokenRuleStore
         and m = "\<lparr> message_type = ''getAutoSwitchRules'', message_account = [] \<rparr>"
         and s = "[''alice'', ''bob'']" and b = staleBrowser,
       THEN conjunct2, THEN conjunct2, THEN conjunct2, THEN conjunct2, THEN conjunct2,
       THEN conjunct2, THEN conjunct2, THEN conjunct2, THEN conjunct2, THEN conjunct1,
       THEN mp, OF rules]
    by (simp add: brokenRuleStore_def demoServices_def)
  have removal: "message_type \<lparr> message_type = ''removeAccount'', message_account = ''alice'' \<rparr>
        = ''removeAccount'' \<and>
      remove brokenRuleStore
        (message_account \<lparr> message_type = ''removeAccount'', message_account = ''alice'' \<rparr>)
        [''alice'', ''bob''] = (Inr (), [''bob'']) \<and>
      declarativeNetRequest staleBrowser =
        Some [compiledRule 6 \<lparr> account = ''bob'', urlPattern = ''/old/'' \<rparr> ''stale''] \<and>
      getAll brokenRuleStore [''bob''] = Inl (Rejected ''storage unavailable'')"
    by (simp add: brokenRuleStore_def demoServices_def staleBrowser_def)
  have fifth: "fst (listener brokenRuleStore
        \<lparr> message_type = ''removeAccount'', message_account = ''alice'' \<rparr> ?w)
      = Inr (Failure (Rejected ''storage unavailable''))"
    using listener_spec
      [where sv = brokenRuleStore
         and m = "\<lparr> message_type = ''removeAccount'', message_account = ''alice'' \<rparr>"
         and s = "[''alice'', ''bob'']" and b = staleBrowser,
       THEN conjunct2, THEN conjunct2, THEN conjunct2, THEN conjunct2, THEN conjunct2,
       THEN conjunct2, THEN conjunct2, THEN conjunct1] removal
    by blast
  have refused: "message_type \<lparr> message_type = ''removeAccount'', message_account = ''zed'' \<rparr>
        = ''removeAccount'' \<and>
      fst (remove demoServices
        (message_account \<lparr> message_type = ''removeAccount'', message_account = ''zed'' \<rparr>)
        [''alice'', ''bob'']) = Inl (Rejected ''unknown account'')"
    by (simp add: demoServices_def)
  have sixth: "fst (listener demoServices
        \<lparr> message_type = ''removeAccount'', message_account = ''zed'' \<rparr> ?w)
      = Inr (Failure (Rejected ''unknown account''))"
    using listener_spec
      [where sv = demoServices
         and m = "\<lparr> message_type = ''removeAccount'', message_account = ''zed'' \<rparr>"
         and s = "[''alice'', ''bob'']" and b = staleBrowser,
       THEN conjunct2, THEN conjunct2, THEN conjunct2, THEN conjunct2, THEN conjunct2,
       THEN conjunct2, THEN conjunct1] refused
    by blast
  have unknown: "message_type \<lparr> message_type = ''ping'', message_account = [] \<rparr>
      \<notin> set knownKinds"
    by (simp add: knownKinds_def)
  have seventh: "handleMessage demoServices
        \<lparr> message_type = ''ping'', message_account = [] \<rparr> ?w = (Inr Undefined, ?w)"
    using listener_spec
      [where sv = demoServices
         and m = "\<lparr> message_type = ''ping'', message_account = [] \<rparr>" and w = ?w,
       THEN conjunct2, THEN conjunct2, THEN conjunct2, THEN conjunct2, THEN conjunct2,
       THEN conjunct2, THEN conjunct2, THEN conjunct2, THEN conjunct2, THEN conjunct2]
      unknown
    by blast
  from first second third fourth fifth sixth seventh show ?thesis
    by (intro conjI)
qed

end
